theory Spec2Isabelle
  imports Complex_Main "HOL-Library.Sublist"
begin

section \<open>Numbers\<close>

text \<open>
  A TypeScript \<^verbatim>\<open>number\<close> is an IEEE-754 double. A finite double is modelled by the
  real number it denotes; the three non-finite values are kept as they are. Rounding,
  overflow to infinity and the sign of zero are abstracted away (every zero is the
  positive one), so a statement below about finite values is a statement under exact
  real arithmetic, whereas the rules for \<open>PInf\<close>, \<open>NInf\<close> and \<open>NaN\<close> are those of
  IEEE-754.
\<close>

datatype jsnum = Fin real | PInf | NInf | NaN

definition is_finite :: "jsnum \<Rightarrow> bool" where
  "is_finite n = (case n of Fin _ \<Rightarrow> True | _ \<Rightarrow> False)"

text \<open>The infinity with the sign of a finite factor; a zero factor gives \<open>NaN\<close>.\<close>

definition inf_of_sign :: "real \<Rightarrow> jsnum" where
  "inf_of_sign a = (if 0 < a then PInf else if a < 0 then NInf else NaN)"

fun js_neg :: "jsnum \<Rightarrow> jsnum" where
  "js_neg (Fin a) = Fin (- a)"
| "js_neg PInf = NInf"
| "js_neg NInf = PInf"
| "js_neg NaN = NaN"

text \<open>\<^verbatim>\<open>a + b\<close>\<close>

fun js_add :: "jsnum \<Rightarrow> jsnum \<Rightarrow> jsnum" where
  "js_add (Fin a) (Fin b) = Fin (a + b)"
| "js_add (Fin a) PInf = PInf"
| "js_add (Fin a) NInf = NInf"
| "js_add PInf (Fin b) = PInf"
| "js_add PInf PInf = PInf"
| "js_add PInf NInf = NaN"
| "js_add NInf (Fin b) = NInf"
| "js_add NInf PInf = NaN"
| "js_add NInf NInf = NInf"
| "js_add NaN _ = NaN"
| "js_add _ NaN = NaN"

text \<open>\<^verbatim>\<open>a - b\<close>, which IEEE-754 defines as \<^verbatim>\<open>a + (-b)\<close>\<close>

definition js_sub :: "jsnum \<Rightarrow> jsnum \<Rightarrow> jsnum" where
  "js_sub a b = js_add a (js_neg b)"

text \<open>\<^verbatim>\<open>a * b\<close>\<close>

fun js_mul :: "jsnum \<Rightarrow> jsnum \<Rightarrow> jsnum" where
  "js_mul (Fin a) (Fin b) = Fin (a * b)"
| "js_mul (Fin a) PInf = inf_of_sign a"
| "js_mul (Fin a) NInf = inf_of_sign (- a)"
| "js_mul PInf (Fin b) = inf_of_sign b"
| "js_mul PInf PInf = PInf"
| "js_mul PInf NInf = NInf"
| "js_mul NInf (Fin b) = inf_of_sign (- b)"
| "js_mul NInf PInf = NInf"
| "js_mul NInf NInf = PInf"
| "js_mul NaN _ = NaN"
| "js_mul _ NaN = NaN"

text \<open>\<^verbatim>\<open>a / b\<close>; a zero divisor is the positive zero.\<close>

fun js_div :: "jsnum \<Rightarrow> jsnum \<Rightarrow> jsnum" where
  "js_div (Fin a) (Fin b) = (if b = 0 then inf_of_sign a else Fin (a / b))"
| "js_div (Fin a) PInf = Fin 0"
| "js_div (Fin a) NInf = Fin 0"
| "js_div PInf (Fin b) = (if 0 \<le> b then PInf else NInf)"
| "js_div NInf (Fin b) = (if 0 \<le> b then NInf else PInf)"
| "js_div PInf PInf = NaN"
| "js_div PInf NInf = NaN"
| "js_div NInf PInf = NaN"
| "js_div NInf NInf = NaN"
| "js_div NaN _ = NaN"
| "js_div _ NaN = NaN"

text \<open>\<^verbatim>\<open>a ** 2\<close>\<close>

fun pow2 :: "jsnum \<Rightarrow> jsnum" where
  "pow2 (Fin a) = Fin (a * a)"
| "pow2 PInf = PInf"
| "pow2 NInf = PInf"
| "pow2 NaN = NaN"

text \<open>\<^verbatim>\<open>a ** (1/2)\<close>: \<^verbatim>\<open>Math.pow\<close> with exponent one half.\<close>

fun pow_half :: "jsnum \<Rightarrow> jsnum" where
  "pow_half (Fin a) = (if a < 0 then NaN else Fin (sqrt a))"
| "pow_half PInf = PInf"
| "pow_half NInf = PInf"
| "pow_half NaN = NaN"

text \<open>\<^verbatim>\<open>Math.cos\<close> and \<^verbatim>\<open>Math.sin\<close>\<close>

fun js_cos :: "jsnum \<Rightarrow> jsnum" where
  "js_cos (Fin a) = Fin (cos a)"
| "js_cos _ = NaN"

fun js_sin :: "jsnum \<Rightarrow> jsnum" where
  "js_sin (Fin a) = Fin (sin a)"
| "js_sin _ = NaN"

text \<open>
  \<^verbatim>\<open>Math.atan2(b, a)\<close> on finite arguments: the angle in \<open>(-\<pi>, \<pi>]\<close> of the point
  \<open>(a, b)\<close>, and \<open>0\<close> at the origin.
\<close>

definition atan2r :: "real \<Rightarrow> real \<Rightarrow> real" where
  "atan2r b a =
     (if 0 < a then arctan (b / a)
      else if a < 0 then (if 0 \<le> b then arctan (b / a) + pi else arctan (b / a) - pi)
      else if 0 < b then pi / 2
      else if b < 0 then - (pi / 2)
      else 0)"

fun js_atan2 :: "jsnum \<Rightarrow> jsnum \<Rightarrow> jsnum" where
  "js_atan2 (Fin b) (Fin a) = Fin (atan2r b a)"
| "js_atan2 (Fin b) PInf = Fin 0"
| "js_atan2 (Fin b) NInf = (if 0 \<le> b then Fin pi else Fin (- pi))"
| "js_atan2 PInf (Fin a) = Fin (pi / 2)"
| "js_atan2 NInf (Fin a) = Fin (- (pi / 2))"
| "js_atan2 PInf PInf = Fin (pi / 4)"
| "js_atan2 PInf NInf = Fin (3 * pi / 4)"
| "js_atan2 NInf PInf = Fin (- (pi / 4))"
| "js_atan2 NInf NInf = Fin (- (3 * pi / 4))"
| "js_atan2 NaN _ = NaN"
| "js_atan2 _ NaN = NaN"

text \<open>
  \<^verbatim>\<open>a || 0\<close> for an optional number: \<^verbatim>\<open>undefined\<close>, zero and \<^verbatim>\<open>NaN\<close> are falsy
  and give \<open>0\<close>.
\<close>

fun or_zero :: "jsnum option \<Rightarrow> jsnum" where
  "or_zero None = Fin 0"
| "or_zero (Some NaN) = Fin 0"
| "or_zero (Some n) = n"

section \<open>Vector2d\<close>

text \<open>
  A \<^verbatim>\<open>Vector2d\<close> is a mutable object, and the methods below mutate their receiver
  and return it. Objects live in a store (a list; a reference is an index into it),
  \<^verbatim>\<open>new\<close> appends, and a method takes the store and returns the updated one. A
  reference a program holds is always the index of an allocated object.
\<close>

record Vector2d =
  x :: jsnum
  y :: jsnum

type_synonym ref = nat
type_synonym store = "Vector2d list"

text \<open>\<^verbatim>\<open>this.x = a\<close> and \<^verbatim>\<open>this.y = a\<close>\<close>

definition assign_x :: "ref \<Rightarrow> jsnum \<Rightarrow> store \<Rightarrow> store" where
  "assign_x this a h = h[this := (h ! this)\<lparr>x := a\<rparr>]"

definition assign_y :: "ref \<Rightarrow> jsnum \<Rightarrow> store \<Rightarrow> store" where
  "assign_y this a h = h[this := (h ! this)\<lparr>y := a\<rparr>]"

text \<open>\<^verbatim>\<open>constructor(x?, y?) { this.x = x||0; this.y = y||0 }\<close>\<close>

definition Vector2d_new :: "jsnum option \<Rightarrow> jsnum option \<Rightarrow> store \<Rightarrow> ref \<times> store" where
  "Vector2d_new a b h = (length h, h @ [\<lparr>x = or_zero a, y = or_zero b\<rparr>])"

definition copy :: "ref \<Rightarrow> store \<Rightarrow> ref \<times> store" where
  "copy this h = Vector2d_new (Some (x (h ! this))) (Some (y (h ! this))) h"

definition add :: "ref \<Rightarrow> ref \<Rightarrow> store \<Rightarrow> ref \<times> store" where
  "add this v h =
     (let h1 = assign_x this (js_add (x (h ! this)) (x (h ! v))) h;
          h2 = assign_y this (js_add (y (h1 ! this)) (y (h1 ! v))) h1
      in (this, h2))"

definition static_add :: "ref \<Rightarrow> ref \<Rightarrow> store \<Rightarrow> ref \<times> store" where
  "static_add v1 v2 h = (let (c, h1) = copy v1 h in add c v2 h1)"

definition sub_v :: "ref \<Rightarrow> ref \<Rightarrow> store \<Rightarrow> ref \<times> store" where
  "sub_v this v h =
     (let h1 = assign_x this (js_sub (x (h ! this)) (x (h ! v))) h;
          h2 = assign_y this (js_sub (y (h1 ! this)) (y (h1 ! v))) h1
      in (this, h2))"

definition static_sub :: "ref \<Rightarrow> ref \<Rightarrow> store \<Rightarrow> ref \<times> store" where
  "static_sub v1 v2 h = (let (c, h1) = copy v1 h in sub_v c v2 h1)"

definition dot :: "ref \<Rightarrow> ref \<Rightarrow> store \<Rightarrow> jsnum" where
  "dot this v h =
     js_add (js_mul (x (h ! this)) (x (h ! v))) (js_mul (y (h ! this)) (y (h ! v)))"

definition scale :: "ref \<Rightarrow> jsnum \<Rightarrow> store \<Rightarrow> ref \<times> store" where
  "scale this n h =
     (let h1 = assign_x this (js_mul (x (h ! this)) n) h;
          h2 = assign_y this (js_mul (y (h1 ! this)) n) h1
      in (this, h2))"

definition static_scale :: "ref \<Rightarrow> jsnum \<Rightarrow> store \<Rightarrow> ref \<times> store" where
  "static_scale v n h = (let (c, h1) = copy v h in scale c n h1)"

definition magSq :: "ref \<Rightarrow> store \<Rightarrow> jsnum" where
  "magSq this h = js_add (pow2 (x (h ! this))) (pow2 (y (h ! this)))"

definition mag :: "ref \<Rightarrow> store \<Rightarrow> jsnum" where
  "mag this h = pow_half (magSq this h)"

definition normalize :: "ref \<Rightarrow> store \<Rightarrow> ref \<times> store" where
  "normalize this h = scale this (js_div (Fin 1) (mag this h)) h"

definition static_normalize :: "ref \<Rightarrow> store \<Rightarrow> ref \<times> store" where
  "static_normalize v h = (let (c, h1) = copy v h in normalize c h1)"

definition setMag :: "ref \<Rightarrow> jsnum \<Rightarrow> store \<Rightarrow> ref \<times> store" where
  "setMag this n h = (let (r, h1) = normalize this h in scale r n h1)"

definition static_setMag :: "ref \<Rightarrow> jsnum \<Rightarrow> store \<Rightarrow> ref \<times> store" where
  "static_setMag v n h = (let (c, h1) = copy v h in setMag c n h1)"

text \<open>\<^verbatim>\<open>set(x, y)\<close> returns nothing.\<close>

definition set_v :: "ref \<Rightarrow> jsnum \<Rightarrow> jsnum \<Rightarrow> store \<Rightarrow> store" where
  "set_v this a b h = assign_y this b (assign_x this a h)"

definition angle :: "ref \<Rightarrow> store \<Rightarrow> jsnum" where
  "angle this h = js_atan2 (y (h ! this)) (x (h ! this))"

definition fromAngle :: "jsnum \<Rightarrow> store \<Rightarrow> ref \<times> store" where
  "fromAngle a h = Vector2d_new (Some (js_cos a)) (Some (js_sin a)) h"

text \<open>\<^verbatim>\<open>random()\<close>, with the draw of \<^verbatim>\<open>Math.random()\<close> as the argument \<open>rnd\<close>.\<close>

definition random_v :: "jsnum \<Rightarrow> store \<Rightarrow> ref \<times> store" where
  "random_v rnd h = fromAngle (js_mul (js_mul rnd (Fin pi)) (Fin 2)) h"

definition static_rotate :: "ref \<Rightarrow> jsnum \<Rightarrow> store \<Rightarrow> ref \<times> store" where
  "static_rotate v a h =
     (let r = mag v h;
          ang = angle v h;
          ang' = js_add ang a;
          (u, h1) = fromAngle ang' h
      in scale u r h1)"

text \<open>The instance \<^verbatim>\<open>rotate(angle)\<close> returns nothing.\<close>

definition rotate_v :: "ref \<Rightarrow> jsnum \<Rightarrow> store \<Rightarrow> store" where
  "rotate_v this a h =
     (let (v, h1) = static_rotate this a h;
          h2 = assign_x this (x (h1 ! v)) h1;
          h3 = assign_y this (y (h2 ! v)) h2
      in h3)"

definition fromPolar :: "jsnum \<Rightarrow> jsnum \<Rightarrow> store \<Rightarrow> ref \<times> store" where
  "fromPolar ang r h = (let (u, h1) = fromAngle ang h in scale u r h1)"

section \<open>Values and options\<close>

text \<open>
  The values a caller can pass as an option (\<^verbatim>\<open>any\<close> in the source). A vector is passed
  by reference; \<open>Fun n\<close> is a caller's function (not a class), a closure with an identity,
  and \<open>Noop\<close> is the default callback \<^verbatim>\<open>()=>{}\<close>. \<open>Obj ps\<close> is a plain object with the own
  data properties \<open>ps\<close> (writable; the first binding of a name counts) and
  \<^verbatim>\<open>Object.prototype\<close> as its prototype; \<open>Cyclic ps\<close> is such an object that, besides,
  contains itself. The properties of these objects hold data, no functions.
\<close>

datatype data =
  DUndefined | DNull | DBool bool | DNum jsnum | DBigInt int | DStr string
  | DObj "(string \<times> data) list" | DCyclic "(string \<times> data) list"

datatype jsval =
  Undefined | Null | Bool bool | Num jsnum | BigInt int | Str string
  | Vec ref | Fun nat | Noop
  | Obj "(string \<times> data) list" | Cyclic "(string \<times> data) list"

fun of_data :: "data \<Rightarrow> jsval" where
  "of_data DUndefined = Undefined"
| "of_data DNull = Null"
| "of_data (DBool b) = Bool b"
| "of_data (DNum n) = Num n"
| "of_data (DBigInt i) = BigInt i"
| "of_data (DStr s) = Str s"
| "of_data (DObj ps) = Obj ps"
| "of_data (DCyclic ps) = Cyclic ps"

fun is_object :: "jsval \<Rightarrow> bool" where
  "is_object (Vec _) = True"
| "is_object (Fun _) = True"
| "is_object Noop = True"
| "is_object (Obj _) = True"
| "is_object (Cyclic _) = True"
| "is_object _ = False"

fun is_function :: "jsval \<Rightarrow> bool" where
  "is_function (Fun _) = True"
| "is_function Noop = True"
| "is_function _ = False"

text \<open>The own data properties of a value that can be read by name.\<close>

fun props_of :: "jsval \<Rightarrow> (string \<times> data) list" where
  "props_of (Obj ps) = ps"
| "props_of (Cyclic ps) = ps"
| "props_of _ = []"

text \<open>
  \<^verbatim>\<open>JSON.stringify\<close> throws a \<^verbatim>\<open>TypeError\<close> on a BigInt and on a cyclic object, wherever
  in the value it meets one; functions and \<^verbatim>\<open>undefined\<close> are left out, and a vector is
  an object with two numbers.
\<close>

fun data_throws :: "data \<Rightarrow> bool" and data_throws_props :: "(string \<times> data) list \<Rightarrow> bool" where
  "data_throws (DBigInt _) = True"
| "data_throws (DCyclic _) = True"
| "data_throws (DObj ps) = data_throws_props ps"
| "data_throws DUndefined = False"
| "data_throws DNull = False"
| "data_throws (DBool _) = False"
| "data_throws (DNum _) = False"
| "data_throws (DStr _) = False"
| "data_throws_props [] = False"
| "data_throws_props (kv # ps) = (data_throws (snd kv) \<or> data_throws_props ps)"

fun json_throws :: "jsval \<Rightarrow> bool" where
  "json_throws (BigInt _) = True"
| "json_throws (Cyclic _) = True"
| "json_throws (Obj ps) = data_throws_props ps"
| "json_throws _ = False"

text \<open>
  The \<^verbatim>\<open>options\<close> object of \<^verbatim>\<open>createElement\<close>: its own properties and its prototype,
  which is \<^verbatim>\<open>Object.prototype\<close> for the literal \<^verbatim>\<open>{}\<close> and changes when the name
  \<^verbatim>\<open>__proto__\<close> is assigned an object or \<^verbatim>\<open>null\<close> (\<open>Proto Null\<close>: no prototype).
\<close>

datatype prototype = Object_prototype | Proto jsval

record options =
  own :: "string \<rightharpoonup> jsval"
  proto :: prototype

definition empty_options :: options where
  "empty_options = \<lparr>own = Map.empty, proto = Object_prototype\<rparr>"

text \<open>
  What a name that is no own property reads through the prototype. This is for the names
  the constructors read (\<^verbatim>\<open>tag\<close>, \<^verbatim>\<open>pos\<close>, \<^verbatim>\<open>innerText\<close>, \<^verbatim>\<open>click\<close>), none of which
  \<^verbatim>\<open>Object.prototype\<close>, a vector or a function has.
\<close>

definition inherited :: "prototype \<Rightarrow> string \<Rightarrow> jsval" where
  "inherited p k =
     (case p of
        Object_prototype \<Rightarrow> Undefined
      | Proto v \<Rightarrow> (case map_of (props_of v) k of None \<Rightarrow> Undefined | Some w \<Rightarrow> of_data w))"

text \<open>\<^verbatim>\<open>options.k\<close>: a missing property reads as \<^verbatim>\<open>undefined\<close>.\<close>

definition property :: "options \<Rightarrow> string \<Rightarrow> jsval" where
  "property options k =
     (case own options k of None \<Rightarrow> inherited (proto options) k | Some v \<Rightarrow> v)"

text \<open>
  Whether an assignment to \<^verbatim>\<open>__proto__\<close> reaches the setter of \<^verbatim>\<open>Object.prototype\<close>: no
  own property of that name, and a prototype chain that leads to \<^verbatim>\<open>Object.prototype\<close>
  without a data property of that name on the way.
\<close>

definition has_proto_setter :: "options \<Rightarrow> bool" where
  "has_proto_setter options =
     (own options ''__proto__'' = None \<and>
      (case proto options of
         Object_prototype \<Rightarrow> True
       | Proto v \<Rightarrow> is_object v \<and> map_of (props_of v) ''__proto__'' = None))"

text \<open>
  Whether the assignment \<^verbatim>\<open>options[k] = v\<close> throws (the method is strict code): it does
  when \<open>k\<close> is no own property and the prototype is a function, for the names a function
  has as read-only properties or as accessors that throw.
\<close>

definition assign_throws :: "options \<Rightarrow> string \<Rightarrow> bool" where
  "assign_throws options k =
     (own options k = None \<and>
      (case proto options of
         Object_prototype \<Rightarrow> False
       | Proto v \<Rightarrow> is_function v \<and> k \<in> set [''name'', ''length'', ''caller'', ''arguments'']))"

text \<open>
  \<^verbatim>\<open>options[k] = v\<close> when it does not throw. The setter of \<^verbatim>\<open>__proto__\<close> makes an object or \<^verbatim>\<open>null\<close> the
  prototype and ignores any other value; every other assignment defines an own property.
\<close>

definition assign_option :: "options \<Rightarrow> string \<Rightarrow> jsval \<Rightarrow> options" where
  "assign_option options k v =
     (if k = ''__proto__'' \<and> has_proto_setter options
      then (if is_object v \<or> v = Null then options\<lparr>proto := Proto v\<rparr> else options)
      else options\<lparr>own := (own options)(k \<mapsto> v)\<rparr>)"

definition nullish :: "jsval \<Rightarrow> bool" where
  "nullish v = (v = Undefined \<or> v = Null)"

text \<open>\<^verbatim>\<open>a ?? b\<close> for a right-hand side without effects\<close>

definition coalesce :: "jsval \<Rightarrow> jsval \<Rightarrow> jsval" where
  "coalesce a b = (if nullish a then b else a)"

section \<open>Elements\<close>

text \<open>
  An element is a mutable object too: \<^verbatim>\<open>createElement\<close> returns the object it has stored
  in the registry, and the caller can write to its fields. Elements live in a store of
  their own, beside the vectors. Its \<open>pos\<close> is whatever value was supplied, for a vector
  the reference to it.
\<close>

record Element =
  id_e :: int
  pos :: jsval
  tag :: jsval
  events :: "(string \<times> jsval) list"
  innerText :: jsval

type_synonym eref = nat

record heap =
  elems :: "Element list"
  vecs :: store

text \<open>\<^verbatim>\<open>obj[k] = v\<close> on an object with string keys, kept in insertion order\<close>

fun put_property :: "string \<Rightarrow> jsval \<Rightarrow> (string \<times> jsval) list \<Rightarrow> (string \<times> jsval) list" where
  "put_property k v [] = [(k, v)]"
| "put_property k v (kv # ps) = (if fst kv = k then (k, v) # ps else kv # put_property k v ps)"

text \<open>A write to fields of the element \<open>e\<close>.\<close>

definition modify_element :: "eref \<Rightarrow> (Element \<Rightarrow> Element) \<Rightarrow> heap \<Rightarrow> heap" where
  "modify_element e f hp = hp\<lparr>elems := (elems hp)[e := f (elems hp ! e)]\<rparr>"

text \<open>
  \<^verbatim>\<open>new Element(options)\<close>: the fields \<open>id = -1\<close> and \<open>events = {}\<close>, then the constructor's
  three assignments.
\<close>

definition Element_new :: "options \<Rightarrow> heap \<Rightarrow> eref \<times> heap" where
  "Element_new options hp =
     (let (p, h1) =
            (if nullish (property options ''pos'')
             then (let (r, h') = Vector2d_new None None (vecs hp) in (Vec r, h'))
             else (property options ''pos'', vecs hp));
          el = \<lparr>id_e = - 1,
                pos = p,
                tag = coalesce (property options ''tag'') (Str ''''),
                events = [],
                innerText = coalesce (property options ''innerText'') (Str '''')\<rparr>
      in (length (elems hp), \<lparr>elems = elems hp @ [el], vecs = h1\<rparr>))"

text \<open>
  \<^verbatim>\<open>{...options, ...{tag:'button'}}\<close>: a new object with the own properties of \<open>options\<close>
  and the tag, and \<^verbatim>\<open>Object.prototype\<close> as its prototype.
\<close>

definition spread_button :: "options \<Rightarrow> options" where
  "spread_button options = \<lparr>own = (own options)(''tag'' \<mapsto> Str ''button''), proto = Object_prototype\<rparr>"

text \<open>\<^verbatim>\<open>super({...options, ...{tag:'button'}}); this.events["click"] = options.click ?? (()=>{})\<close>\<close>

definition Button_new :: "options \<Rightarrow> heap \<Rightarrow> eref \<times> heap" where
  "Button_new options hp =
     (let (e, hp1) = Element_new (spread_button options) hp
      in (e, modify_element e
               (\<lambda>el. el\<lparr>events := put_property ''click''
                                      (coalesce (property options ''click'') Noop) (events el)\<rparr>)
               hp1))"

section \<open>The registry\<close>

text \<open>
  \<open>elements\<close> is an object with integer keys: it is enumerated in ascending key order
  and an assignment to an existing key replaces the value in place. It is a list of
  pairs of a key and a reference to the element, kept in that order by \<open>obj_put\<close>. The
  counter \<open>uid\<close> starts at \<open>0\<close> and is only ever incremented, so it is a natural number; a
  double counts exactly up to \<open>2\<^sup>5\<^sup>3\<close>, which no registry reaches, since every increment
  stores an element.
\<close>

record DOM =
  uid :: nat
  instructions :: "string list"
  elements :: "(nat \<times> eref) list"

definition DOM_new :: DOM where
  "DOM_new = \<lparr>uid = 0, instructions = [], elements = []\<rparr>"

datatype error = TypeError

definition instruct :: "string \<Rightarrow> DOM \<Rightarrow> DOM" where
  "instruct instruction d = d\<lparr>instructions := instructions d @ [instruction]\<rparr>"

text \<open>
  \<^verbatim>\<open>/\s/\<close> on 8-bit characters: tab, line feed, vertical tab, form feed, carriage
  return, space and the no-break space.
\<close>

definition is_space :: "char \<Rightarrow> bool" where
  "is_space c = (c \<in> set [CHR 0x09, CHR 0x0A, CHR 0x0B, CHR 0x0C, CHR 0x0D, CHR 0x20, CHR 0xA0])"

text \<open>\<^verbatim>\<open>s.replace(/\s/g,'')\<close>\<close>

definition strip_ws :: "string \<Rightarrow> string" where
  "strip_ws s = filter (\<lambda>c. \<not> is_space c) s"

text \<open>
  \<^verbatim>\<open>values.forEach((v,i) => { options[keys[i].replace(/\s/g,'')] = v })\<close>, from index
  \<open>i\<close> on. Past the end of \<open>keys\<close>, \<^verbatim>\<open>keys[i]\<close> is \<^verbatim>\<open>undefined\<close> and the call of
  \<^verbatim>\<open>replace\<close> on it throws a \<^verbatim>\<open>TypeError\<close>; so does an assignment that throws.
\<close>

fun zip_options :: "string list \<Rightarrow> jsval list \<Rightarrow> nat \<Rightarrow> options \<Rightarrow> error + options" where
  "zip_options keys [] i options = Inr options"
| "zip_options keys (v # values) i options =
     (if i < length keys
      then (if assign_throws options (strip_ws (keys ! i)) then Inl TypeError
            else zip_options keys values (Suc i) (assign_option options (strip_ws (keys ! i)) v))
      else Inl TypeError)"

text \<open>\<^verbatim>\<open>obj[k] = v\<close> on an object with integer keys\<close>

fun obj_put :: "nat \<Rightarrow> 'a \<Rightarrow> (nat \<times> 'a) list \<Rightarrow> (nat \<times> 'a) list" where
  "obj_put k v [] = [(k, v)]"
| "obj_put k v ((k', v') # kvs) =
     (if k < k' then (k, v) # (k', v') # kvs
      else if k = k' then (k, v) # kvs
      else (k', v') # obj_put k v kvs)"

text \<open>
  The text of an integer in a template literal, \<^verbatim>\<open>`${n}`\<close>: its decimal digits, with a
  minus sign when negative (as JavaScript prints every integer below \<open>10\<^sup>2\<^sup>1\<close>).
\<close>

definition digit_char :: "nat \<Rightarrow> char" where
  "digit_char k = char_of (k + 48)"

fun decimal :: "nat \<Rightarrow> string \<Rightarrow> string" where
  "decimal n acc =
     (if n < 10 then digit_char n # acc
      else decimal (n div 10) (digit_char (n mod 10) # acc))"

definition number_text :: "int \<Rightarrow> string" where
  "number_text i = (if 0 \<le> i then decimal (nat i) [] else CHR 0x2D # decimal (nat (- i)) [])"

text \<open>
  \<^verbatim>\<open>JSON.stringify(e)\<close> belongs to the host. It throws when it meets a BigInt or a cycle
  in one of the element's fields; the text it returns otherwise is the parameter
  \<open>stringify\<close>, which reads the element and, for its \<open>pos\<close>, the vectors. Everything below
  holds for any such text.
\<close>

type_synonym serializer = "store \<Rightarrow> Element \<Rightarrow> string"

definition element_throws :: "Element \<Rightarrow> bool" where
  "element_throws el =
     (json_throws (pos el) \<or> json_throws (tag el) \<or>
      list_ex (\<lambda>kv. json_throws (snd kv)) (events el) \<or> json_throws (innerText el))"

definition JSON_stringify :: "serializer \<Rightarrow> heap \<Rightarrow> eref \<Rightarrow> error + string" where
  "JSON_stringify stringify hp e =
     (if element_throws (elems hp ! e) then Inl TypeError
      else Inr (stringify (vecs hp) (elems hp ! e)))"

text \<open>
  \<^verbatim>\<open>createElement(keys, ...values)\<close>. The result is the element returned (a reference to
  the stored object) or the error thrown, with the registry and the heap as the call
  leaves them: an error of \<^verbatim>\<open>JSON.stringify\<close> comes after the counter was incremented
  and the element stored.
\<close>

definition createElement ::
  "serializer \<Rightarrow> string list \<Rightarrow> jsval list \<Rightarrow> DOM \<times> heap \<Rightarrow> (error + eref) \<times> DOM \<times> heap" where
  "createElement stringify keys values s =
     (case s of (d, hp) \<Rightarrow>
       (case zip_options keys values 0 empty_options of
          Inl err \<Rightarrow> (Inl err, d, hp)
        | Inr options \<Rightarrow>
            (let ident = uid d;
                 d1 = d\<lparr>uid := uid d + 1\<rparr>;
                 (e, hp1) = (if property options ''tag'' = Str ''button''
                             then Button_new options hp
                             else Element_new options hp);
                 hp2 = modify_element e (\<lambda>el. el\<lparr>id_e := int ident\<rparr>) hp1;
                 d2 = d1\<lparr>elements := obj_put ident e (elements d1)\<rparr>
             in (case JSON_stringify stringify hp2 e of
                   Inl err \<Rightarrow> (Inl err, d2, hp2)
                 | Inr js \<Rightarrow> (Inr e, instruct (''createElement('' @ js @ '');'') d2, hp2)))))"

text \<open>
  \<^verbatim>\<open>for (let id in this.elements) { let e = this.elements[id]; this.instruct(...) }\<close>: an
  error of \<^verbatim>\<open>JSON.stringify\<close> ends the loop, with the entries appended so far.
\<close>

fun update_loop :: "serializer \<Rightarrow> heap \<Rightarrow> (nat \<times> eref) list \<Rightarrow> DOM \<Rightarrow> error option \<times> DOM" where
  "update_loop stringify hp [] d = (None, d)"
| "update_loop stringify hp (ke # rest) d =
     (case JSON_stringify stringify hp (snd ke) of
        Inl err \<Rightarrow> (Some err, d)
      | Inr js \<Rightarrow>
          update_loop stringify hp rest
            (instruct (''updateElement('' @ number_text (id_e (elems hp ! snd ke)) @ '','' @ js @ '');'') d))"

text \<open>\<^verbatim>\<open>update()\<close>: the error thrown, if any, and the registry it leaves.\<close>

definition update :: "serializer \<Rightarrow> DOM \<times> heap \<Rightarrow> error option \<times> DOM" where
  "update stringify s = (case s of (d, hp) \<Rightarrow> update_loop stringify hp (elements d) d)"

text \<open>The three operations of the registry, and the state one of them leaves.\<close>

datatype operation = Instruct string | CreateElement "string list" "jsval list" | Update

fun run :: "serializer \<Rightarrow> operation \<Rightarrow> DOM \<times> heap \<Rightarrow> DOM \<times> heap" where
  "run stringify (Instruct i) (d, hp) = (instruct i d, hp)"
| "run stringify (CreateElement keys values) (d, hp) = snd (createElement stringify keys values (d, hp))"
| "run stringify Update (d, hp) = (snd (update stringify (d, hp)), hp)"

text \<open>
  The registries that operations produce from a new one, whether they return or throw.
  Between two operations the caller may do anything to the elements and the vectors, so
  each step starts from any heap.
\<close>

inductive reachable :: "serializer \<Rightarrow> DOM \<Rightarrow> bool" for stringify :: serializer where
  reachable_new: "reachable stringify DOM_new"
| reachable_run: "reachable stringify d \<Longrightarrow> run stringify op (d, hp) = (d', hp') \<Longrightarrow> reachable stringify d'"

text \<open>
  The states left by \<open>n\<close> successive successful calls of \<open>createElement\<close> on a new
  registry; between two calls the vectors may have changed.
\<close>

inductive created :: "serializer \<Rightarrow> nat \<Rightarrow> DOM \<times> heap \<Rightarrow> bool" for stringify :: serializer where
  created_0: "created stringify 0 (DOM_new, hp)"
| created_Suc: "created stringify n (d, hp) \<Longrightarrow>
     createElement stringify keys values (d, hp\<lparr>vecs := h\<rparr>) = (Inr e, d', hp') \<Longrightarrow>
     created stringify (Suc n) (d', hp')"

text \<open>
  The states the registry's operations produce from a new registry when the caller
  writes to no element in between (the vectors may change).
\<close>

inductive undisturbed :: "serializer \<Rightarrow> DOM \<times> heap \<Rightarrow> bool" for stringify :: serializer where
  undisturbed_new: "undisturbed stringify (DOM_new, hp)"
| undisturbed_run: "undisturbed stringify (d, hp) \<Longrightarrow>
     run stringify op (d, hp\<lparr>vecs := h\<rparr>) = (d', hp') \<Longrightarrow> undisturbed stringify (d', hp')"

section \<open>Observations on the registry\<close>

text \<open>
  What holds of a registry and the heap as long as the caller writes to no element: the
  keys of \<open>elements\<close> ascend, each is below the counter, and each refers to an element of
  its own that carries the key as its id.
\<close>

definition dom_ok :: "DOM \<Rightarrow> heap \<Rightarrow> bool" where
  "dom_ok d hp =
     (sorted_wrt (<) (map fst (elements d)) \<and>
      distinct (map snd (elements d)) \<and>
      (\<forall>(k, e) \<in> set (elements d).
          k < uid d \<and> e < length (elems hp) \<and> id_e (elems hp ! e) = int k))"

text \<open>The keys of \<open>elements\<close> ascend and are below the counter.\<close>

definition keys_ok :: "DOM \<Rightarrow> bool" where
  "keys_ok d = (sorted_wrt (<) (map fst (elements d)) \<and> (\<forall>k \<in> fst ` set (elements d). k < uid d))"

text \<open>The entry \<open>update\<close> appends for the element \<open>e\<close> when \<^verbatim>\<open>JSON.stringify\<close> returns.\<close>

definition update_entry :: "serializer \<Rightarrow> heap \<Rightarrow> eref \<Rightarrow> string" where
  "update_entry stringify hp e =
     ''updateElement('' @ number_text (id_e (elems hp ! e)) @ '','' @
       stringify (vecs hp) (elems hp ! e) @ '');''"

text \<open>The stored elements before the first one on which \<^verbatim>\<open>JSON.stringify\<close> throws.\<close>

definition serializable_prefix :: "heap \<Rightarrow> (nat \<times> eref) list \<Rightarrow> (nat \<times> eref) list" where
  "serializable_prefix hp kes = takeWhile (\<lambda>ke. \<not> element_throws (elems hp ! snd ke)) kes"

text \<open>The number a string of decimal digits denotes.\<close>

definition decimal_value :: "string \<Rightarrow> nat" where
  "decimal_value s = foldl (\<lambda>a c. 10 * a + (of_char c - 48)) 0 s"

text \<open>
  The id an \<^verbatim>\<open>updateElement(<id>,<json>);\<close> instruction refers to: the text between
  the opening parenthesis and the first comma.
\<close>

definition id_text :: "string \<Rightarrow> string" where
  "id_text s = takeWhile (\<lambda>c. c \<noteq> CHR 0x2C) (drop (length ''updateElement('') s)"

section \<open>Properties\<close>

subsection \<open>What the vector methods write\<close>

lemma length_assign [simp]:
  "length (assign_x this a h) = length h" "length (assign_y this a h) = length h"
  by (simp_all add: assign_x_def assign_y_def)

lemma nth_assign_other [simp]:
  "r \<noteq> this \<Longrightarrow> assign_x this a h ! r = h ! r"
  "r \<noteq> this \<Longrightarrow> assign_y this a h ! r = h ! r"
  by (simp_all add: assign_x_def assign_y_def)

lemma nth_assign_this [simp]:
  "this < length h \<Longrightarrow> assign_x this a h ! this = (h ! this)\<lparr>x := a\<rparr>"
  "this < length h \<Longrightarrow> assign_y this a h ! this = (h ! this)\<lparr>y := a\<rparr>"
  by (simp_all add: assign_x_def assign_y_def)

lemma assign_y_field_x [simp]: "x (assign_y this a h ! r) = x (h ! r)"
  by (cases "r = this"; cases "this < length h") (simp_all add: assign_y_def list_update_beyond)

lemma assign_x_field_y [simp]: "y (assign_x this a h ! r) = y (h ! r)"
  by (cases "r = this"; cases "this < length h") (simp_all add: assign_x_def list_update_beyond)

lemma Vector2d_update_both [simp]: "(v :: Vector2d)\<lparr>x := a, y := b\<rparr> = \<lparr>x = a, y = b\<rparr>"
  by (cases v) simp

lemma assign_both:
  "this < length h \<Longrightarrow> assign_y this b (assign_x this a h) = h[this := \<lparr>x = a, y = b\<rparr>]"
  by (simp add: assign_x_def assign_y_def)

lemma Vector2d_new_eq:
  "Vector2d_new a b h = (length h, h @ [\<lparr>x = or_zero a, y = or_zero b\<rparr>])"
  by (simp add: Vector2d_new_def)

lemma copy_eq:
  "copy this h = (length h, h @ [\<lparr>x = or_zero (Some (x (h ! this))), y = or_zero (Some (y (h ! this)))\<rparr>])"
  by (simp add: copy_def Vector2d_new_def)

lemma add_eq:
  "this < length h \<Longrightarrow>
     add this v h = (this, h[this := \<lparr>x = js_add (x (h ! this)) (x (h ! v)),
                                         y = js_add (y (h ! this)) (y (h ! v))\<rparr>])"
  by (simp add: add_def Let_def assign_both)

lemma sub_v_eq:
  "this < length h \<Longrightarrow>
     sub_v this v h = (this, h[this := \<lparr>x = js_sub (x (h ! this)) (x (h ! v)),
                                           y = js_sub (y (h ! this)) (y (h ! v))\<rparr>])"
  by (simp add: sub_v_def Let_def assign_both)

lemma scale_eq:
  "this < length h \<Longrightarrow>
     scale this n h = (this, h[this := \<lparr>x = js_mul (x (h ! this)) n,
                                           y = js_mul (y (h ! this)) n\<rparr>])"
  by (simp add: scale_def Let_def assign_both)

lemma set_v_eq:
  "this < length h \<Longrightarrow> set_v this a b h = h[this := \<lparr>x = a, y = b\<rparr>]"
  by (simp add: set_v_def assign_both)

lemma normalize_eq:
  "this < length h \<Longrightarrow>
     normalize this h =
       (this, h[this := \<lparr>x = js_mul (x (h ! this)) (js_div (Fin 1) (mag this h)),
                          y = js_mul (y (h ! this)) (js_div (Fin 1) (mag this h))\<rparr>])"
  by (simp add: normalize_def scale_eq)

lemma setMag_eq:
  "this < length h \<Longrightarrow>
     setMag this n h =
       (this, h[this := \<lparr>x = js_mul (js_mul (x (h ! this)) (js_div (Fin 1) (mag this h))) n,
                          y = js_mul (js_mul (y (h ! this)) (js_div (Fin 1) (mag this h))) n\<rparr>])"
  by (simp add: setMag_def normalize_eq scale_eq)

lemma static_rotate_eq:
  "static_rotate v a h =
     (length h,
      h @ [\<lparr>x = js_mul (or_zero (Some (js_cos (js_add (angle v h) a)))) (mag v h),
            y = js_mul (or_zero (Some (js_sin (js_add (angle v h) a)))) (mag v h)\<rparr>])"
  by (simp add: static_rotate_def fromAngle_def Vector2d_new_def Let_def scale_eq)

lemma rotate_v_eq:
  "this < length h \<Longrightarrow>
     rotate_v this a h =
       h[this := \<lparr>x = js_mul (or_zero (Some (js_cos (js_add (angle this h) a)))) (mag this h),
                   y = js_mul (or_zero (Some (js_sin (js_add (angle this h) a)))) (mag this h)\<rparr>]
        @ [\<lparr>x = js_mul (or_zero (Some (js_cos (js_add (angle this h) a)))) (mag this h),
             y = js_mul (or_zero (Some (js_sin (js_add (angle this h) a)))) (mag this h)\<rparr>]"
  by (simp add: rotate_v_def static_rotate_eq assign_both nth_append list_update_append)

subsection \<open>Polar form\<close>

lemma sqrt_sum_squares_factor:
  assumes "p \<noteq> 0"
  shows "sqrt (p * p + q * q) = \<bar>p\<bar> * sqrt (1 + (q / p)\<^sup>2)"
proof -
  have "p * p + q * q = (p * p) * (1 + (q / p)\<^sup>2)"
    using assms by (simp add: field_simps power2_eq_square)
  then have "sqrt (p * p + q * q) = sqrt (p * p) * sqrt (1 + (q / p)\<^sup>2)"
    by (simp add: real_sqrt_mult)
  then show ?thesis by simp
qed

lemma sqrt_one_plus_square_pos: "0 < sqrt (1 + (t::real)\<^sup>2)"
  by (simp add: add_pos_nonneg)

lemma polar_cos: "sqrt (p * p + q * q) * cos (atan2r q p) = p"
proof -
  let ?k = "sqrt (1 + (q / p)\<^sup>2)"
  have k: "0 < ?k" by (rule sqrt_one_plus_square_pos)
  consider "0 < p" | "p < 0" | "p = 0" by linarith
  then show ?thesis
  proof cases
    case 1
    then have "sqrt (p * p + q * q) = p * ?k"
      using sqrt_sum_squares_factor [of p q] by simp
    moreover have "cos (atan2r q p) = 1 / ?k"
      using 1 by (simp add: atan2r_def cos_arctan)
    ultimately show ?thesis using k by simp
  next
    case 2
    then have "sqrt (p * p + q * q) = - p * ?k"
      using sqrt_sum_squares_factor [of p q] by simp
    moreover have "cos (atan2r q p) = - (1 / ?k)"
      using 2 by (simp add: atan2r_def cos_arctan)
    ultimately show ?thesis using k by simp
  next
    case 3
    then show ?thesis by (simp add: atan2r_def)
  qed
qed

lemma polar_sin: "sqrt (p * p + q * q) * sin (atan2r q p) = q"
proof -
  let ?k = "sqrt (1 + (q / p)\<^sup>2)"
  have k: "0 < ?k" by (rule sqrt_one_plus_square_pos)
  consider "0 < p" | "p < 0" | "p = 0" by linarith
  then show ?thesis
  proof cases
    case 1
    then have "sqrt (p * p + q * q) = p * ?k"
      using sqrt_sum_squares_factor [of p q] by simp
    moreover have "sin (atan2r q p) = (q / p) / ?k"
      using 1 by (simp add: atan2r_def sin_arctan)
    ultimately show ?thesis using k 1 by simp
  next
    case 2
    then have "sqrt (p * p + q * q) = - p * ?k"
      using sqrt_sum_squares_factor [of p q] by simp
    moreover have "sin (atan2r q p) = - ((q / p) / ?k)"
      using 2 by (simp add: atan2r_def sin_arctan)
    ultimately show ?thesis using k 2 by simp
  next
    case 3
    then show ?thesis by (simp add: atan2r_def)
  qed
qed

lemma rotate_back:
  fixes p q a :: real
  defines "r \<equiv> sqrt (p * p + q * q)"
  defines "p1 \<equiv> cos (atan2r q p + a) * r" and "q1 \<equiv> sin (atan2r q p + a) * r"
  shows "cos (atan2r q1 p1 + - a) * sqrt (p1 * p1 + q1 * q1) = p"
    and "sin (atan2r q1 p1 + - a) * sqrt (p1 * p1 + q1 * q1) = q"
proof -
  let ?t = "atan2r q p" and ?t1 = "atan2r q1 p1"
  have r0: "0 \<le> r" by (simp add: r_def)
  have "p1 * p1 + q1 * q1 = r * r * ((cos (?t + a))\<^sup>2 + (sin (?t + a))\<^sup>2)"
    unfolding p1_def q1_def by algebra
  also have "(cos (?t + a))\<^sup>2 + (sin (?t + a))\<^sup>2 = 1"
    by (rule sin_cos_squared_add2)
  finally have "p1 * p1 + q1 * q1 = r * r" by simp
  then have r1: "sqrt (p1 * p1 + q1 * q1) = r" using r0 by simp
  have c: "r * cos ?t1 = r * cos (?t + a)" and s: "r * sin ?t1 = r * sin (?t + a)"
    using polar_cos [of p1 q1] polar_sin [of p1 q1] r1
    by (simp_all add: p1_def q1_def mult.commute)
  have pc: "r * cos ?t = p" and ps: "r * sin ?t = q"
    using polar_cos [of p q] polar_sin [of p q] by (simp_all add: r_def)
  have "cos (?t1 + - a) * r = (r * cos ?t1) * cos a + (r * sin ?t1) * sin a"
    by (simp add: cos_diff algebra_simps)
  also have "\<dots> = r * (cos (?t + a) * cos a + sin (?t + a) * sin a)"
    by (simp add: c s algebra_simps)
  also have "cos (?t + a) * cos a + sin (?t + a) * sin a = cos ((?t + a) - a)"
    by (simp only: cos_diff)
  finally have cx: "cos (?t1 + - a) * r = p" using pc by simp
  have "sin (?t1 + - a) * r = (r * sin ?t1) * cos a - (r * cos ?t1) * sin a"
    by (simp add: sin_diff algebra_simps)
  also have "\<dots> = r * (sin (?t + a) * cos a - cos (?t + a) * sin a)"
    by (simp add: c s algebra_simps)
  also have "sin (?t + a) * cos a - cos (?t + a) * sin a = sin ((?t + a) - a)"
    by (simp only: sin_diff)
  finally have sx: "sin (?t1 + - a) * r = q" using ps by simp
  from cx sx show "cos (atan2r q1 p1 + - a) * sqrt (p1 * p1 + q1 * q1) = p"
    and "sin (atan2r q1 p1 + - a) * sqrt (p1 * p1 + q1 * q1) = q"
    using r1 by simp_all
qed

subsection \<open>Rotation round trip\<close>

lemma mag_finite:
  "h ! v = \<lparr>x = Fin p, y = Fin q\<rparr> \<Longrightarrow> mag v h = Fin (sqrt (p * p + q * q))"
  by (simp add: mag_def magSq_def not_less)

lemma angle_finite:
  "h ! v = \<lparr>x = Fin p, y = Fin q\<rparr> \<Longrightarrow> angle v h = Fin (atan2r q p)"
  by (simp add: angle_def)

lemma static_rotate_finite:
  assumes "h ! v = \<lparr>x = Fin p, y = Fin q\<rparr>"
  shows "static_rotate v (Fin a) h =
           (length h, h @ [\<lparr>x = Fin (cos (atan2r q p + a) * sqrt (p * p + q * q)),
                               y = Fin (sin (atan2r q p + a) * sqrt (p * p + q * q))\<rparr>])"
  by (simp add: static_rotate_eq mag_finite [OF assms] angle_finite [OF assms])

lemma rotate_v_finite:
  assumes "v < length h" and "h ! v = \<lparr>x = Fin p, y = Fin q\<rparr>"
  shows "rotate_v v (Fin a) h =
           h[v := \<lparr>x = Fin (cos (atan2r q p + a) * sqrt (p * p + q * q)),
                     y = Fin (sin (atan2r q p + a) * sqrt (p * p + q * q))\<rparr>]
            @ [\<lparr>x = Fin (cos (atan2r q p + a) * sqrt (p * p + q * q)),
                 y = Fin (sin (atan2r q p + a) * sqrt (p * p + q * q))\<rparr>]"
  using assms(1) by (simp add: rotate_v_eq mag_finite [OF assms(2)] angle_finite [OF assms(2)])

text \<open>
  C9: for every vector with finite components \<open>(p, q)\<close> and every finite angle \<open>a\<close>,
  \<^verbatim>\<open>rotate\<close> by \<open>a\<close> followed by \<^verbatim>\<open>rotate\<close> of the result by \<open>-a\<close>, in the static and
  in the instance form, gives a vector with the components \<open>(p, q)\<close> again, exactly (finite numbers are
  reals here, so this is the statement under exact real arithmetic; a component or an
  angle that is \<open>PInf\<close>, \<open>NInf\<close> or \<open>NaN\<close> is not a real number and is not covered).
\<close>

theorem rotate_round_trip:
  assumes "v < length h" and "h ! v = \<lparr>x = Fin p, y = Fin q\<rparr>"
  shows "snd (static_rotate (fst (static_rotate v (Fin a) h)) (js_neg (Fin a))
                (snd (static_rotate v (Fin a) h)))
           ! fst (static_rotate (fst (static_rotate v (Fin a) h)) (js_neg (Fin a))
                (snd (static_rotate v (Fin a) h)))
         = \<lparr>x = Fin p, y = Fin q\<rparr> \<and>
         rotate_v v (js_neg (Fin a)) (rotate_v v (Fin a) h) ! v = \<lparr>x = Fin p, y = Fin q\<rparr>"
proof -
  let ?r = "sqrt (p * p + q * q)"
  let ?p1 = "cos (atan2r q p + a) * ?r" and ?q1 = "sin (atan2r q p + a) * ?r"
  let ?v1 = "\<lparr>x = Fin ?p1, y = Fin ?q1\<rparr>"
  let ?h1 = "h @ [?v1]"
  have undo: "cos (atan2r ?q1 ?p1 + - a) * sqrt (?p1 * ?p1 + ?q1 * ?q1) = p"
    "sin (atan2r ?q1 ?p1 + - a) * sqrt (?p1 * ?p1 + ?q1 * ?q1) = q"
    by (rule rotate_back)+
  have rot1: "static_rotate v (Fin a) h = (length h, ?h1)"
    by (rule static_rotate_finite [OF assms(2)])
  have cell: "?h1 ! length h = ?v1"
    by simp
  have rot2: "static_rotate (length h) (Fin (- a)) ?h1 =
          (length ?h1, ?h1 @ [\<lparr>x = Fin (cos (atan2r ?q1 ?p1 + - a) * sqrt (?p1 * ?p1 + ?q1 * ?q1)),
                                 y = Fin (sin (atan2r ?q1 ?p1 + - a) * sqrt (?p1 * ?p1 + ?q1 * ?q1))\<rparr>])"
    by (rule static_rotate_finite [OF cell])
  have static: "snd (static_rotate (fst (static_rotate v (Fin a) h)) (js_neg (Fin a))
                (snd (static_rotate v (Fin a) h)))
           ! fst (static_rotate (fst (static_rotate v (Fin a) h)) (js_neg (Fin a))
                (snd (static_rotate v (Fin a) h)))
         = \<lparr>x = Fin p, y = Fin q\<rparr>"
    unfolding rot1 fst_conv snd_conv js_neg.simps rot2 undo
    by (simp add: nth_append)
  let ?h2 = "h[v := ?v1] @ [?v1]"
  have inst1: "rotate_v v (Fin a) h = ?h2"
    by (rule rotate_v_finite [OF assms])
  have len: "v < length ?h2" and cell2: "?h2 ! v = ?v1"
    using assms(1) by (simp_all add: nth_append)
  have inst2: "rotate_v v (Fin (- a)) ?h2 =
      ?h2[v := \<lparr>x = Fin (cos (atan2r ?q1 ?p1 + - a) * sqrt (?p1 * ?p1 + ?q1 * ?q1)),
                   y = Fin (sin (atan2r ?q1 ?p1 + - a) * sqrt (?p1 * ?p1 + ?q1 * ?q1))\<rparr>]
        @ [\<lparr>x = Fin (cos (atan2r ?q1 ?p1 + - a) * sqrt (?p1 * ?p1 + ?q1 * ?q1)),
             y = Fin (sin (atan2r ?q1 ?p1 + - a) * sqrt (?p1 * ?p1 + ?q1 * ?q1))\<rparr>]"
    by (rule rotate_v_finite [OF len cell2])
  have "rotate_v v (js_neg (Fin a)) (rotate_v v (Fin a) h) ! v = \<lparr>x = Fin p, y = Fin q\<rparr>"
    unfolding inst1 js_neg.simps inst2 undo
    using assms(1) by (simp add: nth_append)
  with static show ?thesis by blast
qed

theorem rotate_round_trip_witness:
  "(0::nat) < length [\<lparr>x = Fin 3, y = Fin 4\<rparr>] \<and>
   [\<lparr>x = Fin 3, y = Fin 4\<rparr>] ! 0 = \<lparr>x = Fin 3, y = Fin 4\<rparr> \<and>
   snd (static_rotate (fst (static_rotate 0 (Fin 2) [\<lparr>x = Fin 3, y = Fin 4\<rparr>])) (js_neg (Fin 2))
          (snd (static_rotate 0 (Fin 2) [\<lparr>x = Fin 3, y = Fin 4\<rparr>])))
     ! fst (static_rotate (fst (static_rotate 0 (Fin 2) [\<lparr>x = Fin 3, y = Fin 4\<rparr>])) (js_neg (Fin 2))
          (snd (static_rotate 0 (Fin 2) [\<lparr>x = Fin 3, y = Fin 4\<rparr>])))
     = \<lparr>x = Fin 3, y = Fin 4\<rparr> \<and>
   rotate_v 0 (js_neg (Fin 2)) (rotate_v 0 (Fin 2) [\<lparr>x = Fin 3, y = Fin 4\<rparr>]) ! 0
     = \<lparr>x = Fin 3, y = Fin 4\<rparr>"
proof -
  have len: "(0::nat) < length [\<lparr>x = Fin 3, y = Fin 4\<rparr>]"
    and hyp: "[\<lparr>x = Fin 3, y = Fin 4\<rparr>] ! 0 = \<lparr>x = Fin 3, y = Fin 4\<rparr>"
    by simp_all
  from len hyp rotate_round_trip [OF len hyp, of 2] show ?thesis
    by blast
qed

subsection \<open>The static methods work on a new object\<close>

lemma static_add_new: "\<exists>c. static_add v1 v2 h = (length h, h @ [c])"
  by (simp add: static_add_def copy_eq add_eq)

lemma static_sub_new: "\<exists>c. static_sub v1 v2 h = (length h, h @ [c])"
  by (simp add: static_sub_def copy_eq sub_v_eq)

lemma static_scale_new: "\<exists>c. static_scale v n h = (length h, h @ [c])"
  by (simp add: static_scale_def copy_eq scale_eq)

lemma static_normalize_new: "\<exists>c. static_normalize v h = (length h, h @ [c])"
  by (simp add: static_normalize_def copy_eq normalize_eq)

lemma static_setMag_new: "\<exists>c. static_setMag v n h = (length h, h @ [c])"
  by (simp add: static_setMag_def copy_eq setMag_eq)

lemma static_rotate_new: "\<exists>c. static_rotate v a h = (length h, h @ [c])"
  by (simp add: static_rotate_eq)

lemma new_object_frame:
  "\<exists>c. f = (length h, h @ [c]) \<Longrightarrow> r < length h \<Longrightarrow> fst f = length h \<and> snd f ! r = h ! r"
  by (auto simp: nth_append)

text \<open>
  C5: each static operation (\<^verbatim>\<open>add\<close>, \<^verbatim>\<open>sub\<close>, \<^verbatim>\<open>scale\<close>, \<^verbatim>\<open>normalize\<close>, \<^verbatim>\<open>setMag\<close>,
  \<^verbatim>\<open>rotate\<close>) returns an object that did not exist before the call (the copy of its
  first argument, for \<^verbatim>\<open>rotate\<close> the vector made by \<^verbatim>\<open>fromAngle\<close>) and writes to that
  object only: every vector passed as an argument has after the call the \<open>x\<close> and \<open>y\<close>
  it had before.
\<close>

theorem static_methods_keep_arguments:
  assumes "v1 < length h" and "v2 < length h"
  shows "(fst (static_add v1 v2 h) = length h \<and>
          snd (static_add v1 v2 h) ! v1 = h ! v1 \<and> snd (static_add v1 v2 h) ! v2 = h ! v2) \<and>
         (fst (static_sub v1 v2 h) = length h \<and>
          snd (static_sub v1 v2 h) ! v1 = h ! v1 \<and> snd (static_sub v1 v2 h) ! v2 = h ! v2) \<and>
         (fst (static_scale v1 n h) = length h \<and> snd (static_scale v1 n h) ! v1 = h ! v1) \<and>
         (fst (static_normalize v1 h) = length h \<and> snd (static_normalize v1 h) ! v1 = h ! v1) \<and>
         (fst (static_setMag v1 n h) = length h \<and> snd (static_setMag v1 n h) ! v1 = h ! v1) \<and>
         (fst (static_rotate v1 n h) = length h \<and> snd (static_rotate v1 n h) ! v1 = h ! v1)"
  using new_object_frame [OF static_add_new assms(1), of v1 v2]
    new_object_frame [OF static_add_new assms(2), of v1 v2]
    new_object_frame [OF static_sub_new assms(1), of v1 v2]
    new_object_frame [OF static_sub_new assms(2), of v1 v2]
    new_object_frame [OF static_scale_new assms(1), of v1 n]
    new_object_frame [OF static_normalize_new assms(1), of v1]
    new_object_frame [OF static_setMag_new assms(1), of v1 n]
    new_object_frame [OF static_rotate_new assms(1), of v1 n]
  by blast

theorem static_methods_keep_arguments_witness:
  "(0::nat) < length [\<lparr>x = Fin 1, y = Fin 2\<rparr>, \<lparr>x = Fin 3, y = Fin 4\<rparr>] \<and>
   (1::nat) < length [\<lparr>x = Fin 1, y = Fin 2\<rparr>, \<lparr>x = Fin 3, y = Fin 4\<rparr>] \<and>
   static_add 0 1 [\<lparr>x = Fin 1, y = Fin 2\<rparr>, \<lparr>x = Fin 3, y = Fin 4\<rparr>]
     = (2, [\<lparr>x = Fin 1, y = Fin 2\<rparr>, \<lparr>x = Fin 3, y = Fin 4\<rparr>, \<lparr>x = Fin 4, y = Fin 6\<rparr>]) \<and>
   snd (static_sub 0 1 [\<lparr>x = Fin 1, y = Fin 2\<rparr>, \<lparr>x = Fin 3, y = Fin 4\<rparr>]) ! 0 = \<lparr>x = Fin 1, y = Fin 2\<rparr> \<and>
   snd (static_scale 0 (Fin 5) [\<lparr>x = Fin 1, y = Fin 2\<rparr>, \<lparr>x = Fin 3, y = Fin 4\<rparr>]) ! 0 = \<lparr>x = Fin 1, y = Fin 2\<rparr> \<and>
   snd (static_normalize 0 [\<lparr>x = Fin 1, y = Fin 2\<rparr>, \<lparr>x = Fin 3, y = Fin 4\<rparr>]) ! 0 = \<lparr>x = Fin 1, y = Fin 2\<rparr> \<and>
   snd (static_setMag 0 (Fin 5) [\<lparr>x = Fin 1, y = Fin 2\<rparr>, \<lparr>x = Fin 3, y = Fin 4\<rparr>]) ! 0 = \<lparr>x = Fin 1, y = Fin 2\<rparr> \<and>
   snd (static_rotate 0 (Fin 5) [\<lparr>x = Fin 1, y = Fin 2\<rparr>, \<lparr>x = Fin 3, y = Fin 4\<rparr>]) ! 0 = \<lparr>x = Fin 1, y = Fin 2\<rparr>"
proof -
  let ?h = "[\<lparr>x = Fin 1, y = Fin 2\<rparr>, \<lparr>x = Fin 3, y = Fin 4\<rparr>]"
  have a: "(0::nat) < length ?h" and b: "(1::nat) < length ?h"
    by simp_all
  have s: "static_add 0 1 ?h = (2, ?h @ [\<lparr>x = Fin 4, y = Fin 6\<rparr>])"
    by (simp add: static_add_def copy_eq add_eq)
  from static_methods_keep_arguments [OF a b, of "Fin 5"] a b s show ?thesis
    by simp
qed

subsection \<open>The zero vector\<close>

lemma mag_zero: "h ! v = \<lparr>x = Fin 0, y = Fin 0\<rparr> \<Longrightarrow> mag v h = Fin 0"
  by (simp add: mag_finite)

lemma or_zero_times_zero:
  "js_mul (or_zero (Some (js_cos b))) (Fin 0) = Fin 0"
  "js_mul (or_zero (Some (js_sin b))) (Fin 0) = Fin 0"
  by (cases b; simp)+

lemma normalize_zero:
  assumes "v < length h" and "h ! v = \<lparr>x = Fin 0, y = Fin 0\<rparr>"
  shows "normalize v h = (v, h[v := \<lparr>x = NaN, y = NaN\<rparr>])"
  using assms by (simp add: normalize_eq mag_zero inf_of_sign_def)

lemma setMag_zero:
  assumes "v < length h" and "h ! v = \<lparr>x = Fin 0, y = Fin 0\<rparr>"
  shows "setMag v n h = (v, h[v := \<lparr>x = NaN, y = NaN\<rparr>])"
  using assms by (simp add: setMag_eq mag_zero inf_of_sign_def)

lemma static_rotate_zero:
  assumes "h ! v = \<lparr>x = Fin 0, y = Fin 0\<rparr>"
  shows "static_rotate v a h = (length h, h @ [\<lparr>x = Fin 0, y = Fin 0\<rparr>])"
  using assms by (simp add: static_rotate_eq mag_zero or_zero_times_zero)

lemma rotate_v_zero:
  assumes "v < length h" and "h ! v = \<lparr>x = Fin 0, y = Fin 0\<rparr>"
  shows "rotate_v v a h = h @ [\<lparr>x = Fin 0, y = Fin 0\<rparr>]"
proof -
  have "h[v := \<lparr>x = Fin 0, y = Fin 0\<rparr>] = h"
    using assms by (metis list_update_id)
  with assms show ?thesis
    by (simp add: rotate_v_eq mag_zero or_zero_times_zero)
qed

lemma copy_zero:
  assumes "h ! v = \<lparr>x = Fin 0, y = Fin 0\<rparr>"
  shows "copy v h = (length h, h @ [\<lparr>x = Fin 0, y = Fin 0\<rparr>])"
  using assms by (simp add: copy_eq)

text \<open>
  The claim C4 as stated fails for \<^verbatim>\<open>rotate\<close>: rotating the zero vector by the angle
  \<open>1\<close> leaves it the zero vector, whose components are finite.
\<close>

theorem rotate_zero_vector_counterexample:
  "is_finite (x (rotate_v 0 (Fin 1) [\<lparr>x = Fin 0, y = Fin 0\<rparr>] ! 0)) \<and>
   is_finite (y (rotate_v 0 (Fin 1) [\<lparr>x = Fin 0, y = Fin 0\<rparr>] ! 0)) \<and>
   is_finite (x (snd (static_rotate 0 (Fin 1) [\<lparr>x = Fin 0, y = Fin 0\<rparr>])
                   ! fst (static_rotate 0 (Fin 1) [\<lparr>x = Fin 0, y = Fin 0\<rparr>]))) \<and>
   is_finite (y (snd (static_rotate 0 (Fin 1) [\<lparr>x = Fin 0, y = Fin 0\<rparr>])
                   ! fst (static_rotate 0 (Fin 1) [\<lparr>x = Fin 0, y = Fin 0\<rparr>])))"
  by (simp add: rotate_v_zero static_rotate_zero is_finite_def)

text \<open>
  C4, amended: on the zero vector \<open>(0, 0)\<close>, \<^verbatim>\<open>normalize()\<close> and \<^verbatim>\<open>setMag(n)\<close> (instance
  and static) return normally and their result has both components \<open>NaN\<close>;
  \<^verbatim>\<open>rotate(angle)\<close> (instance and static) returns normally too, and for every angle its
  result is the zero vector again, with finite components.
\<close>

theorem zero_vector_degenerate:
  assumes "v < length h" and "h ! v = \<lparr>x = Fin 0, y = Fin 0\<rparr>"
  shows "snd (normalize v h) ! fst (normalize v h) = \<lparr>x = NaN, y = NaN\<rparr> \<and>
         snd (static_normalize v h) ! fst (static_normalize v h) = \<lparr>x = NaN, y = NaN\<rparr> \<and>
         snd (setMag v n h) ! fst (setMag v n h) = \<lparr>x = NaN, y = NaN\<rparr> \<and>
         snd (static_setMag v n h) ! fst (static_setMag v n h) = \<lparr>x = NaN, y = NaN\<rparr> \<and>
         rotate_v v a h ! v = \<lparr>x = Fin 0, y = Fin 0\<rparr> \<and>
         snd (static_rotate v a h) ! fst (static_rotate v a h) = \<lparr>x = Fin 0, y = Fin 0\<rparr>"
proof -
  let ?h1 = "h @ [\<lparr>x = Fin 0, y = Fin 0\<rparr>]"
  have new: "length h < length ?h1" "?h1 ! length h = \<lparr>x = Fin 0, y = Fin 0\<rparr>"
    by simp_all
  have "snd (normalize v h) ! fst (normalize v h) = \<lparr>x = NaN, y = NaN\<rparr>"
    using assms by (simp add: normalize_zero)
  moreover have "snd (static_normalize v h) ! fst (static_normalize v h) = \<lparr>x = NaN, y = NaN\<rparr>"
    by (simp add: static_normalize_def copy_zero [OF assms(2)] normalize_zero [OF new])
  moreover have "snd (setMag v n h) ! fst (setMag v n h) = \<lparr>x = NaN, y = NaN\<rparr>"
    using assms by (simp add: setMag_zero)
  moreover have "snd (static_setMag v n h) ! fst (static_setMag v n h) = \<lparr>x = NaN, y = NaN\<rparr>"
    by (simp add: static_setMag_def copy_zero [OF assms(2)] setMag_zero [OF new])
  moreover have "rotate_v v a h ! v = \<lparr>x = Fin 0, y = Fin 0\<rparr>"
    using assms by (simp add: rotate_v_zero nth_append)
  moreover have "snd (static_rotate v a h) ! fst (static_rotate v a h) = \<lparr>x = Fin 0, y = Fin 0\<rparr>"
    by (simp add: static_rotate_zero [OF assms(2)])
  ultimately show ?thesis by blast
qed

theorem zero_vector_degenerate_witness:
  "(0::nat) < length [\<lparr>x = Fin 0, y = Fin 0\<rparr>] \<and>
   [\<lparr>x = Fin 0, y = Fin 0\<rparr>] ! 0 = \<lparr>x = Fin 0, y = Fin 0\<rparr> \<and>
   normalize 0 [\<lparr>x = Fin 0, y = Fin 0\<rparr>] = (0, [\<lparr>x = NaN, y = NaN\<rparr>]) \<and>
   snd (setMag 0 (Fin 3) [\<lparr>x = Fin 0, y = Fin 0\<rparr>]) ! fst (setMag 0 (Fin 3) [\<lparr>x = Fin 0, y = Fin 0\<rparr>])
     = \<lparr>x = NaN, y = NaN\<rparr> \<and>
   rotate_v 0 PInf [\<lparr>x = Fin 0, y = Fin 0\<rparr>] ! 0 = \<lparr>x = Fin 0, y = Fin 0\<rparr>"
proof -
  let ?h = "[\<lparr>x = Fin 0, y = Fin 0\<rparr>]"
  have a: "(0::nat) < length ?h" and b: "?h ! 0 = \<lparr>x = Fin 0, y = Fin 0\<rparr>"
    by simp_all
  have n: "normalize 0 ?h = (0, [\<lparr>x = NaN, y = NaN\<rparr>])"
    by (simp add: normalize_eq mag_def magSq_def inf_of_sign_def)
  from zero_vector_degenerate [OF a b, of "Fin 3" PInf] a b n show ?thesis
    by simp
qed

subsection \<open>Decimal text\<close>

declare decimal.simps [simp del]

lemma decimal_acc: "decimal n acc = decimal n [] @ acc"
proof (induction n arbitrary: acc rule: less_induct)
  case (less n)
  show ?case
  proof (cases "n < 10")
    case True
    then show ?thesis by (simp add: decimal.simps [of n])
  next
    case False
    then have lt: "n div 10 < n" by simp
    have "decimal n acc = decimal (n div 10) (digit_char (n mod 10) # acc)"
      using False by (simp add: decimal.simps [of n])
    also have "\<dots> = decimal (n div 10) [] @ digit_char (n mod 10) # acc"
      by (rule less.IH [OF lt])
    finally have l: "decimal n acc = decimal (n div 10) [] @ digit_char (n mod 10) # acc" .
    have "decimal n [] = decimal (n div 10) [digit_char (n mod 10)]"
      using False by (simp add: decimal.simps [of n])
    also have "\<dots> = decimal (n div 10) [] @ [digit_char (n mod 10)]"
      by (rule less.IH [OF lt])
    finally show ?thesis using l by simp
  qed
qed

lemma decimal_unfold:
  "decimal n [] =
     (if n < 10 then [digit_char n] else decimal (n div 10) [] @ [digit_char (n mod 10)])"
  using decimal_acc [of "n div 10" "[digit_char (n mod 10)]"]
  by (simp add: decimal.simps [of n "[]"])

lemma of_char_digit: "k < 10 \<Longrightarrow> of_char (digit_char k) = k + 48"
  by (simp add: digit_char_def)

lemma digit_not_comma: "k < 10 \<Longrightarrow> digit_char k \<noteq> CHR 0x2C"
proof
  assume "k < 10" and "digit_char k = CHR 0x2C"
  then have "k + 48 = of_char (CHR 0x2C)"
    using of_char_digit [of k] by simp
  then show False by simp
qed

lemma decimal_no_comma: "CHR 0x2C \<notin> set (decimal n [])"
proof (induction n rule: less_induct)
  case (less n)
  show ?case
  proof (cases "n < 10")
    case True
    then show ?thesis
      using digit_not_comma [of n] by (simp add: decimal_unfold [of n])
  next
    case False
    then have "n div 10 < n" by simp
    from less.IH [OF this] False digit_not_comma [of "n mod 10"] show ?thesis
      by (simp add: decimal_unfold [of n])
  qed
qed

lemma decimal_value_decimal: "decimal_value (decimal n []) = n"
proof (induction n rule: less_induct)
  case (less n)
  show ?case
  proof (cases "n < 10")
    case True
    then show ?thesis
      by (simp add: decimal_unfold [of n] decimal_value_def of_char_digit)
  next
    case False
    then have "n div 10 < n" by simp
    from less.IH [OF this] have "decimal_value (decimal (n div 10) []) = n div 10" .
    with False show ?thesis
      by (simp add: decimal_unfold [of n] decimal_value_def of_char_digit)
  qed
qed

lemma decimal_inj: "decimal m [] = decimal n [] \<Longrightarrow> m = n"
  by (metis decimal_value_decimal)

lemma number_text_nat: "number_text (int k) = decimal k []"
  by (simp add: number_text_def)

lemma takeWhile_up_to:
  "c \<notin> set xs \<Longrightarrow> takeWhile (\<lambda>a. a \<noteq> c) (xs @ c # ys) = xs"
  by (induction xs) auto

subsection \<open>Building the options\<close>

lemma zip_options_err:
  "i \<le> length keys \<Longrightarrow> length keys < i + length vals \<Longrightarrow>
     zip_options keys vals i opts = Inl TypeError"
proof (induction vals arbitrary: i opts)
  case Nil
  then show ?case by simp
next
  case (Cons v vals)
  show ?case
  proof (cases "i < length keys")
    case True
    with Cons.prems have "Suc i \<le> length keys" and "length keys < Suc i + length vals"
      by simp_all
    from Cons.IH [OF this] True show ?thesis by simp
  next
    case False
    then show ?thesis by simp
  qed
qed

lemma assign_option_plain:
  assumes "proto opts = Object_prototype" and "k \<noteq> ''__proto__''"
  shows "\<not> assign_throws opts k"
    and "proto (assign_option opts k v) = Object_prototype"
    and "dom (own (assign_option opts k v)) = insert k (dom (own opts))"
  using assms by (simp_all add: assign_throws_def assign_option_def)

text \<open>
  When no key that has a value is \<^verbatim>\<open>__proto__\<close>, the prototype stays \<^verbatim>\<open>Object.prototype\<close>,
  no assignment throws, and the own properties are the keys that have a value.
\<close>

lemma zip_options_plain:
  "i + length vals \<le> length keys \<Longrightarrow>
   ''__proto__'' \<notin> strip_ws ` set (take (length vals) (drop i keys)) \<Longrightarrow>
   proto opts = Object_prototype \<Longrightarrow>
     \<exists>opts'. zip_options keys vals i opts = Inr opts' \<and>
       proto opts' = Object_prototype \<and>
       dom (own opts') = dom (own opts) \<union> strip_ws ` set (take (length vals) (drop i keys))"
proof (induction vals arbitrary: i opts)
  case Nil
  then show ?case by simp
next
  case (Cons v vals)
  then have i: "i < length keys" and rest: "Suc i + length vals \<le> length keys"
    by simp_all
  let ?k = "strip_ws (keys ! i)"
  let ?o = "assign_option opts ?k v"
  have d: "drop i keys = keys ! i # drop (Suc i) keys"
    using i by (simp add: Cons_nth_drop_Suc)
  then have s: "set (take (length (v # vals)) (drop i keys))
               = insert (keys ! i) (set (take (length vals) (drop (Suc i) keys)))"
    by simp
  from Cons.prems(2) have k: "?k \<noteq> ''__proto__''"
    and r: "''__proto__'' \<notin> strip_ws ` set (take (length vals) (drop (Suc i) keys))"
    unfolding s by auto
  note a = assign_option_plain [OF Cons.prems(3) k]
  from Cons.IH [OF rest r a(2)]
  obtain opts' where z: "zip_options keys vals (Suc i) ?o = Inr opts'"
    and p: "proto opts' = Object_prototype"
    and dm: "dom (own opts') = dom (own ?o) \<union> strip_ws ` set (take (length vals) (drop (Suc i) keys))"
    by blast
  have zz: "zip_options keys (v # vals) i opts = Inr opts'"
    using z i a(1) by simp
  have "dom (own opts') = dom (own opts) \<union> strip_ws ` set (take (length (v # vals)) (drop i keys))"
    unfolding dm a(3) s by blast
  with zz p show ?case
    by blast
qed

subsection \<open>Constructing elements\<close>

lemma Element_new_eq:
  "Element_new opts hp =
     (length (elems hp),
      \<lparr>elems = elems hp @
         [\<lparr>id_e = - 1,
           pos = (if nullish (property opts ''pos'') then Vec (length (vecs hp))
                  else property opts ''pos''),
           tag = coalesce (property opts ''tag'') (Str ''''),
           events = [],
           innerText = coalesce (property opts ''innerText'') (Str '''')\<rparr>],
       vecs = (if nullish (property opts ''pos'') then vecs hp @ [\<lparr>x = Fin 0, y = Fin 0\<rparr>]
               else vecs hp)\<rparr>)"
  by (simp add: Element_new_def Vector2d_new_def)

lemma property_spread_button:
  "property (spread_button opts) ''tag'' = Str ''button''"
  "property (spread_button opts) ''pos'' = (case own opts ''pos'' of None \<Rightarrow> Undefined | Some v \<Rightarrow> v)"
  "property (spread_button opts) ''innerText''
     = (case own opts ''innerText'' of None \<Rightarrow> Undefined | Some v \<Rightarrow> v)"
  by (simp_all add: property_def spread_button_def inherited_def split: option.splits)

lemma Button_new_eq:
  "Button_new opts hp =
     (length (elems hp),
      \<lparr>elems = elems hp @
         [\<lparr>id_e = - 1,
           pos = (if nullish (property (spread_button opts) ''pos'') then Vec (length (vecs hp))
                  else property (spread_button opts) ''pos''),
           tag = Str ''button'',
           events = [(''click'', coalesce (property opts ''click'') Noop)],
           innerText = coalesce (property (spread_button opts) ''innerText'') (Str '''')\<rparr>],
       vecs = (if nullish (property (spread_button opts) ''pos'')
               then vecs hp @ [\<lparr>x = Fin 0, y = Fin 0\<rparr>]
               else vecs hp)\<rparr>)"
  by (simp add: Button_new_def Element_new_eq modify_element_def property_spread_button(1)
      coalesce_def nullish_def)

text \<open>
  C6: for every options value, whatever it has under \<^verbatim>\<open>tag\<close>, the Button constructed
  from it has the tag \<^verbatim>\<open>"button"\<close>, and its events have the key \<^verbatim>\<open>"click"\<close>: bound to
  the caller's callback when the options have one, to the no-op callback when the
  options have no \<^verbatim>\<open>click\<close> (or a nullish one).
\<close>

theorem Button_tag_and_click:
  "tag (elems (snd (Button_new opts hp)) ! fst (Button_new opts hp)) = Str ''button'' \<and>
   (\<forall>f. own opts ''click'' = Some (Fun f) \<longrightarrow>
      map_of (events (elems (snd (Button_new opts hp)) ! fst (Button_new opts hp))) ''click''
        = Some (Fun f)) \<and>
   (\<forall>f. property opts ''click'' = Fun f \<longrightarrow>
      map_of (events (elems (snd (Button_new opts hp)) ! fst (Button_new opts hp))) ''click''
        = Some (Fun f)) \<and>
   (nullish (property opts ''click'') \<longrightarrow>
      map_of (events (elems (snd (Button_new opts hp)) ! fst (Button_new opts hp))) ''click''
        = Some Noop) \<and>
   (own opts ''click'' = None \<and> proto opts = Object_prototype \<longrightarrow>
      map_of (events (elems (snd (Button_new opts hp)) ! fst (Button_new opts hp))) ''click''
        = Some Noop)"
proof -
  let ?b = "elems (snd (Button_new opts hp)) ! fst (Button_new opts hp)"
  have t: "tag ?b = Str ''button''"
    by (simp add: Button_new_eq)
  have c: "map_of (events ?b) ''click'' = Some (coalesce (property opts ''click'') Noop)"
    by (simp add: Button_new_eq)
  show ?thesis
    unfolding t c by (auto simp: property_def inherited_def coalesce_def nullish_def)
qed

theorem Button_tag_and_click_witness:
  "own \<lparr>own = [''tag'' \<mapsto> Str ''div'', ''click'' \<mapsto> Fun 7], proto = Object_prototype\<rparr> ''click''
     = Some (Fun 7) \<and>
   tag (elems (snd (Button_new
          \<lparr>own = [''tag'' \<mapsto> Str ''div'', ''click'' \<mapsto> Fun 7], proto = Object_prototype\<rparr>
          \<lparr>elems = [], vecs = []\<rparr>)) ! 0) = Str ''button'' \<and>
   map_of (events (elems (snd (Button_new
          \<lparr>own = [''tag'' \<mapsto> Str ''div'', ''click'' \<mapsto> Fun 7], proto = Object_prototype\<rparr>
          \<lparr>elems = [], vecs = []\<rparr>)) ! 0)) ''click'' = Some (Fun 7) \<and>
   nullish (property \<lparr>own = [''tag'' \<mapsto> Str ''div''], proto = Object_prototype\<rparr> ''click'') \<and>
   map_of (events (elems (snd (Button_new
          \<lparr>own = [''tag'' \<mapsto> Str ''div''], proto = Object_prototype\<rparr>
          \<lparr>elems = [], vecs = []\<rparr>)) ! 0)) ''click'' = Some Noop"
proof -
  let ?o1 = "\<lparr>own = [''tag'' \<mapsto> Str ''div'', ''click'' \<mapsto> Fun 7], proto = Object_prototype\<rparr>"
  let ?o2 = "\<lparr>own = [''tag'' \<mapsto> Str ''div''], proto = Object_prototype\<rparr>"
  let ?hp = "\<lparr>elems = [], vecs = []\<rparr>"
  have a: "own ?o1 ''click'' = Some (Fun 7)"
    by simp
  have n: "nullish (property ?o2 ''click'')"
    by (simp add: property_def inherited_def nullish_def)
  have f: "fst (Button_new ?o1 ?hp) = 0" "fst (Button_new ?o2 ?hp) = 0"
    by (simp_all add: Button_new_eq)
  from Button_tag_and_click [of ?o1 ?hp] Button_tag_and_click [of ?o2 ?hp] a n
  show ?thesis
    unfolding f by blast
qed

text \<open>
  The claim C8 as stated fails. An element is constructed with the caller's vector
  \<open>(1, 2)\<close> as \<^verbatim>\<open>pos\<close>; the caller then scales that vector by \<open>2\<close>, and the components
  read through the element's \<open>pos\<close> have changed to \<open>(2, 4)\<close>.
\<close>

theorem Element_pos_shared_counterexample:
  "pos (elems (snd (Element_new \<lparr>own = [''pos'' \<mapsto> Vec 0], proto = Object_prototype\<rparr>
                     \<lparr>elems = [], vecs = [\<lparr>x = Fin 1, y = Fin 2\<rparr>]\<rparr>)) ! 0) = Vec 0 \<and>
   vecs (snd (Element_new \<lparr>own = [''pos'' \<mapsto> Vec 0], proto = Object_prototype\<rparr>
                     \<lparr>elems = [], vecs = [\<lparr>x = Fin 1, y = Fin 2\<rparr>]\<rparr>)) ! 0
     = \<lparr>x = Fin 1, y = Fin 2\<rparr> \<and>
   snd (scale 0 (Fin 2)
         (vecs (snd (Element_new \<lparr>own = [''pos'' \<mapsto> Vec 0], proto = Object_prototype\<rparr>
                     \<lparr>elems = [], vecs = [\<lparr>x = Fin 1, y = Fin 2\<rparr>]\<rparr>)))) ! 0
     = \<lparr>x = Fin 2, y = Fin 4\<rparr> \<and>
   snd (scale 0 (Fin 2)
         (vecs (snd (Element_new \<lparr>own = [''pos'' \<mapsto> Vec 0], proto = Object_prototype\<rparr>
                     \<lparr>elems = [], vecs = [\<lparr>x = Fin 1, y = Fin 2\<rparr>]\<rparr>)))) ! 0
     \<noteq> vecs (snd (Element_new \<lparr>own = [''pos'' \<mapsto> Vec 0], proto = Object_prototype\<rparr>
                     \<lparr>elems = [], vecs = [\<lparr>x = Fin 1, y = Fin 2\<rparr>]\<rparr>)) ! 0"
  by (simp add: Element_new_eq property_def nullish_def scale_def assign_x_def assign_y_def)

text \<open>
  C8, amended: an Element constructed with a caller-supplied vector as \<^verbatim>\<open>pos\<close> holds that
  very vector, shared with the caller, and the constructor allocates no copy. So after
  the caller's in-place \<^verbatim>\<open>add\<close>, \<^verbatim>\<open>sub\<close>, \<^verbatim>\<open>scale\<close> or \<^verbatim>\<open>set\<close> on the vector, the
  element's \<open>pos\<close> has the components the caller's call wrote.
\<close>

theorem Element_pos_shared:
  assumes "own opts ''pos'' = Some (Vec r)" and "r < length (vecs hp)" and "v < length (vecs hp)"
  shows "pos (elems (snd (Element_new opts hp)) ! fst (Element_new opts hp)) = Vec r \<and>
         vecs (snd (Element_new opts hp)) = vecs hp \<and>
         snd (add r v (vecs hp)) ! r
           = \<lparr>x = js_add (x (vecs hp ! r)) (x (vecs hp ! v)),
               y = js_add (y (vecs hp ! r)) (y (vecs hp ! v))\<rparr> \<and>
         snd (sub_v r v (vecs hp)) ! r
           = \<lparr>x = js_sub (x (vecs hp ! r)) (x (vecs hp ! v)),
               y = js_sub (y (vecs hp ! r)) (y (vecs hp ! v))\<rparr> \<and>
         snd (scale r n (vecs hp)) ! r
           = \<lparr>x = js_mul (x (vecs hp ! r)) n, y = js_mul (y (vecs hp ! r)) n\<rparr> \<and>
         set_v r a b (vecs hp) ! r = \<lparr>x = a, y = b\<rparr>"
proof -
  have p: "property opts ''pos'' = Vec r"
    using assms(1) by (simp add: property_def)
  then have "\<not> nullish (property opts ''pos'')"
    by (simp add: nullish_def)
  with p assms(2,3) show ?thesis
    by (simp add: Element_new_eq add_eq sub_v_eq scale_eq set_v_eq)
qed

theorem Element_pos_shared_witness:
  "own \<lparr>own = [''pos'' \<mapsto> Vec 0], proto = Object_prototype\<rparr> ''pos'' = Some (Vec 0) \<and>
   (0::nat) < length [\<lparr>x = Fin 1, y = Fin 2\<rparr>, \<lparr>x = Fin 3, y = Fin 4\<rparr>] \<and>
   (1::nat) < length [\<lparr>x = Fin 1, y = Fin 2\<rparr>, \<lparr>x = Fin 3, y = Fin 4\<rparr>] \<and>
   pos (elems (snd (Element_new \<lparr>own = [''pos'' \<mapsto> Vec 0], proto = Object_prototype\<rparr>
          \<lparr>elems = [], vecs = [\<lparr>x = Fin 1, y = Fin 2\<rparr>, \<lparr>x = Fin 3, y = Fin 4\<rparr>]\<rparr>)) ! 0) = Vec 0 \<and>
   snd (add 0 1 [\<lparr>x = Fin 1, y = Fin 2\<rparr>, \<lparr>x = Fin 3, y = Fin 4\<rparr>]) ! 0 = \<lparr>x = Fin 4, y = Fin 6\<rparr> \<and>
   snd (scale 0 (Fin 2) [\<lparr>x = Fin 1, y = Fin 2\<rparr>, \<lparr>x = Fin 3, y = Fin 4\<rparr>]) ! 0 = \<lparr>x = Fin 2, y = Fin 4\<rparr>"
proof -
  let ?o = "\<lparr>own = [''pos'' \<mapsto> Vec 0], proto = Object_prototype\<rparr>"
  let ?h = "[\<lparr>x = Fin 1, y = Fin 2\<rparr>, \<lparr>x = Fin 3, y = Fin 4\<rparr>]"
  let ?hp = "\<lparr>elems = [], vecs = ?h\<rparr>"
  have a: "own ?o ''pos'' = Some (Vec 0)"
    and b: "(0::nat) < length (vecs ?hp)" and c: "(1::nat) < length (vecs ?hp)"
    by simp_all
  have f: "fst (Element_new ?o ?hp) = 0"
    by (simp add: Element_new_eq)
  from Element_pos_shared [where opts = ?o and r = 0 and hp = ?hp and v = 1
      and n = "Fin 2" and a = "Fin 0" and b = "Fin 0", OF a b c] a
  show ?thesis
    unfolding f by simp
qed

subsection \<open>What createElement leaves\<close>

lemma obj_put_last:
  "\<forall>k'\<in>fst ` set kvs. k' < k \<Longrightarrow> obj_put k v kvs = kvs @ [(k, v)]"
  by (induction kvs) auto

lemma construct_new:
  "\<exists>el h1. (if property opts ''tag'' = Str ''button'' then Button_new opts hp else Element_new opts hp)
             = (length (elems hp), \<lparr>elems = elems hp @ [el], vecs = h1\<rparr>)"
  by (simp add: Button_new_eq Element_new_eq)

lemma createElement_zip:
  assumes "zip_options keys vals 0 empty_options = Inr opts"
    and "(if property opts ''tag'' = Str ''button'' then Button_new opts hp else Element_new opts hp)
           = (length (elems hp), \<lparr>elems = elems hp @ [el], vecs = h1\<rparr>)"
  shows "createElement stringify keys vals (d, hp) =
           (if element_throws (el\<lparr>id_e := int (uid d)\<rparr>) then Inl TypeError
            else Inr (length (elems hp)),
            (if element_throws (el\<lparr>id_e := int (uid d)\<rparr>) then (\<lambda>r. r)
             else instruct (''createElement('' @ stringify h1 (el\<lparr>id_e := int (uid d)\<rparr>) @ '');''))
              (d\<lparr>uid := Suc (uid d),
                 elements := obj_put (uid d) (length (elems hp)) (elements d)\<rparr>),
            \<lparr>elems = elems hp @ [el\<lparr>id_e := int (uid d)\<rparr>], vecs = h1\<rparr>)"
  unfolding createElement_def
  by (simp add: assms Let_def modify_element_def JSON_stringify_def)

lemma createElement_Inr:
  assumes "createElement stringify keys vals (d, hp) = (Inr e, d', hp')"
  shows "uid d' = Suc (uid d)"
    and "elements d' = obj_put (uid d) e (elements d)"
    and "e = length (elems hp)"
    and "\<exists>el. elems hp' = elems hp @ [el] \<and> id_e el = int (uid d) \<and> \<not> element_throws el \<and>
           instructions d' = instructions d @ [''createElement('' @ stringify (vecs hp') el @ '');'']"
proof -
  obtain opts where z: "zip_options keys vals 0 empty_options = Inr opts"
    using assms by (cases "zip_options keys vals 0 empty_options") (simp_all add: createElement_def)
  obtain el h1 where c: "(if property opts ''tag'' = Str ''button'' then Button_new opts hp
      else Element_new opts hp) = (length (elems hp), \<lparr>elems = elems hp @ [el], vecs = h1\<rparr>)"
    using construct_new by blast
  note r = assms [unfolded createElement_zip [OF z c]]
  from r have nt: "\<not> element_throws (el\<lparr>id_e := int (uid d)\<rparr>)"
    by (auto split: if_splits)
  from r nt show "uid d' = Suc (uid d)" and "elements d' = obj_put (uid d) e (elements d)"
    and "e = length (elems hp)"
    by (auto simp: instruct_def)
  from r nt show "\<exists>el. elems hp' = elems hp @ [el] \<and> id_e el = int (uid d) \<and> \<not> element_throws el \<and>
           instructions d' = instructions d @ [''createElement('' @ stringify (vecs hp') el @ '');'']"
    by (intro exI [of _ "el\<lparr>id_e := int (uid d)\<rparr>"]) (auto simp: instruct_def)
qed

lemma createElement_Inl:
  assumes "createElement stringify keys vals (d, hp) = (Inl err, d', hp')"
  shows "(d' = d \<and> hp' = hp) \<or>
         (uid d' = Suc (uid d) \<and>
          elements d' = obj_put (uid d) (length (elems hp)) (elements d) \<and>
          instructions d' = instructions d \<and>
          (\<exists>el. elems hp' = elems hp @ [el] \<and> id_e el = int (uid d) \<and> element_throws el))"
proof (cases "zip_options keys vals 0 empty_options")
  case (Inl a)
  with assms show ?thesis
    by (simp add: createElement_def)
next
  case (Inr opts)
  obtain el h1 where c: "(if property opts ''tag'' = Str ''button'' then Button_new opts hp
      else Element_new opts hp) = (length (elems hp), \<lparr>elems = elems hp @ [el], vecs = h1\<rparr>)"
    using construct_new by blast
  note r = assms [unfolded createElement_zip [OF Inr c]]
  from r have t: "element_throws (el\<lparr>id_e := int (uid d)\<rparr>)"
    by (auto split: if_splits)
  with r have "uid d' = Suc (uid d) \<and>
          elements d' = obj_put (uid d) (length (elems hp)) (elements d) \<and>
          instructions d' = instructions d \<and>
          elems hp' = elems hp @ [el\<lparr>id_e := int (uid d)\<rparr>]"
    by auto
  with t show ?thesis
    by auto
qed

subsection \<open>More values than keys\<close>

text \<open>
  C10: when \<^verbatim>\<open>createElement\<close> is given strictly more values than keys, the call throws
  a \<^verbatim>\<open>TypeError\<close> (at the latest from \<^verbatim>\<open>keys[i].replace\<close> at the first index past the
  keys, and always while the options are built, before the counter is touched), and
  the registry is as before the call: \<open>uid\<close>, \<open>elements\<close> and \<open>instructions\<close> are
  unchanged, and so is the heap.
\<close>

theorem createElement_extra_values_throws:
  "length keys < length vals \<Longrightarrow>
     createElement stringify keys vals (d, hp) = (Inl TypeError, d, hp)"
  using zip_options_err [of 0 keys vals empty_options]
  by (simp add: createElement_def)

theorem createElement_extra_values_throws_witness:
  "length [''tag''] < length [Str ''a'', Str ''b''] \<and>
   createElement (\<lambda>h e. ''{}'') [''tag''] [Str ''a'', Str ''b''] (DOM_new, \<lparr>elems = [], vecs = []\<rparr>)
     = (Inl TypeError, DOM_new, \<lparr>elems = [], vecs = []\<rparr>)"
  using createElement_extra_values_throws
    [of "[''tag'']" "[Str ''a'', Str ''b'']" "\<lambda>h e. ''{}''" DOM_new "\<lparr>elems = [], vecs = []\<rparr>"]
  by simp

subsection \<open>Fewer values than keys\<close>

lemma construct_defaults:
  assumes "(if property opts ''tag'' = Str ''button'' then Button_new opts hp else Element_new opts hp)
           = (e, hp')"
    and "proto opts = Object_prototype"
  shows "own opts ''tag'' = None \<longrightarrow> tag (elems hp' ! e) = Str ''''"
    and "own opts ''pos'' = None \<longrightarrow>
           pos (elems hp' ! e) = Vec (length (vecs hp)) \<and>
           vecs hp' = vecs hp @ [\<lparr>x = Fin 0, y = Fin 0\<rparr>]"
    and "own opts ''innerText'' = None \<longrightarrow> innerText (elems hp' ! e) = Str ''''"
  using assms
  by (auto simp: Button_new_eq Element_new_eq property_def inherited_def spread_button_def
      coalesce_def nullish_def split: if_splits option.splits)

text \<open>
  The claim C7 as stated fails in two ways. With the keys \<^verbatim>\<open>innerText\<close>, \<^verbatim>\<open>tag\<close> and the
  single value \<open>10n\<close> (a BigInt) the call throws, from \<^verbatim>\<open>JSON.stringify\<close>, after the
  counter was incremented and the element stored. With the keys \<^verbatim>\<open>__proto__\<close>,
  \<^verbatim>\<open>innerText\<close> and the single value \<^verbatim>\<open>{innerText: "x"}\<close> the option \<^verbatim>\<open>innerText\<close> has no
  value, yet the element's innerText is \<^verbatim>\<open>"x"\<close>, read through the prototype, and not the
  default.
\<close>

theorem createElement_missing_values_counterexample:
  "length [BigInt 10] < length [''innerText'', ''tag''] \<and>
   createElement (\<lambda>h e. ''{}'') [''innerText'', ''tag''] [BigInt 10]
       (DOM_new, \<lparr>elems = [], vecs = []\<rparr>)
     = (Inl TypeError,
        \<lparr>uid = 1, instructions = [], elements = [(0, 0)]\<rparr>,
        \<lparr>elems = [\<lparr>id_e = 0, pos = Vec 0, tag = Str '''', events = [], innerText = BigInt 10\<rparr>],
          vecs = [\<lparr>x = Fin 0, y = Fin 0\<rparr>]\<rparr>) \<and>
   length [Obj [(''innerText'', DStr ''x'')]] < length [''__proto__'', ''innerText''] \<and>
   createElement (\<lambda>h e. ''{}'') [''__proto__'', ''innerText''] [Obj [(''innerText'', DStr ''x'')]]
       (DOM_new, \<lparr>elems = [], vecs = []\<rparr>)
     = (Inr 0,
        \<lparr>uid = 1, instructions = [''createElement({});''], elements = [(0, 0)]\<rparr>,
        \<lparr>elems = [\<lparr>id_e = 0, pos = Vec 0, tag = Str '''', events = [], innerText = Str ''x''\<rparr>],
          vecs = [\<lparr>x = Fin 0, y = Fin 0\<rparr>]\<rparr>)"
  by (simp add: createElement_def empty_options_def assign_option_def assign_throws_def
      has_proto_setter_def strip_ws_def is_space_def property_def inherited_def Element_new_eq
      nullish_def coalesce_def modify_element_def JSON_stringify_def element_throws_def
      DOM_new_def instruct_def Let_def)

text \<open>
  C7, amended: when \<^verbatim>\<open>createElement\<close> is given strictly fewer values than keys, and none of
  the keys that have a value is \<^verbatim>\<open>__proto__\<close>, building the options throws nothing, the
  counter is incremented and an element is stored. The call returns that element, unless
  \<^verbatim>\<open>JSON.stringify\<close> throws on it (as on a BigInt or a cyclic value), and then the call
  throws that \<^verbatim>\<open>TypeError\<close>. The options are exactly the (whitespace-stripped) keys that
  have a value, so an option whose value is missing is absent; and each of \<^verbatim>\<open>tag\<close>,
  \<^verbatim>\<open>pos\<close> and \<^verbatim>\<open>innerText\<close> that is absent has the default in the element: tag \<^verbatim>\<open>""\<close>, a
  new vector \<open>(0, 0)\<close> as pos, innerText \<^verbatim>\<open>""\<close>.
\<close>

theorem createElement_missing_values_default:
  assumes "length vals < length keys"
    and "''__proto__'' \<notin> strip_ws ` set (take (length vals) keys)"
  shows "\<exists>opts r d' hp' el.
           zip_options keys vals 0 empty_options = Inr opts \<and>
           dom (own opts) = strip_ws ` set (take (length vals) keys) \<and>
           proto opts = Object_prototype \<and>
           createElement stringify keys vals (d, hp) = (r, d', hp') \<and>
           r = (if element_throws el then Inl TypeError else Inr (length (elems hp))) \<and>
           uid d' = Suc (uid d) \<and>
           elements d' = obj_put (uid d) (length (elems hp)) (elements d) \<and>
           elems hp' = elems hp @ [el] \<and>
           (''tag'' \<notin> strip_ws ` set (take (length vals) keys) \<longrightarrow> tag el = Str '''') \<and>
           (''pos'' \<notin> strip_ws ` set (take (length vals) keys) \<longrightarrow>
              pos el = Vec (length (vecs hp)) \<and>
              vecs hp' = vecs hp @ [\<lparr>x = Fin 0, y = Fin 0\<rparr>]) \<and>
           (''innerText'' \<notin> strip_ws ` set (take (length vals) keys) \<longrightarrow>
              innerText el = Str '''')"
proof -
  let ?K = "strip_ws ` set (take (length vals) keys)"
  from assms zip_options_plain [of 0 vals keys empty_options]
  obtain opts where z: "zip_options keys vals 0 empty_options = Inr opts"
    and p: "proto opts = Object_prototype" and dm: "dom (own opts) = ?K"
    by (auto simp: empty_options_def)
  obtain el h1 where c: "(if property opts ''tag'' = Str ''button'' then Button_new opts hp
      else Element_new opts hp) = (length (elems hp), \<lparr>elems = elems hp @ [el], vecs = h1\<rparr>)"
    using construct_new by blast
  let ?el = "el\<lparr>id_e := int (uid d)\<rparr>"
  note ce = createElement_zip [OF z c, of stringify d]
  have none: "k \<notin> ?K \<Longrightarrow> own opts k = None" for k
    using dm by blast
  have "el = elems \<lparr>elems = elems hp @ [el], vecs = h1\<rparr> ! length (elems hp)"
    by simp
  with construct_defaults [OF c p] none [of "''tag''"] none [of "''pos''"] none [of "''innerText''"]
  have defaults: "(''tag'' \<notin> ?K \<longrightarrow> tag ?el = Str '''') \<and>
      (''pos'' \<notin> ?K \<longrightarrow> pos ?el = Vec (length (vecs hp)) \<and>
                             h1 = vecs hp @ [\<lparr>x = Fin 0, y = Fin 0\<rparr>]) \<and>
      (''innerText'' \<notin> ?K \<longrightarrow> innerText ?el = Str '''')"
    by simp
  let ?d' = "fst (snd (createElement stringify keys vals (d, hp)))"
  let ?hp' = "\<lparr>elems = elems hp @ [?el], vecs = h1\<rparr>"
  let ?r = "if element_throws ?el then Inl TypeError else Inr (length (elems hp))"
  have res: "createElement stringify keys vals (d, hp) = (?r, ?d', ?hp')"
    by (simp add: ce)
  have u: "uid ?d' = Suc (uid d)"
    and e: "elements ?d' = obj_put (uid d) (length (elems hp)) (elements d)"
    by (simp_all add: ce instruct_def)
  have "elems ?hp' = elems hp @ [?el]" and "vecs ?hp' = h1"
    by simp_all
  with z dm p res u e defaults show ?thesis
    by blast
qed

theorem createElement_missing_values_default_witness:
  "length [Num (Fin 7)] < length [''w i d t h'', ''tag'', ''pos'', ''innerText''] \<and>
   ''__proto__'' \<notin> strip_ws ` set (take (length [Num (Fin 7)])
                      [''w i d t h'', ''tag'', ''pos'', ''innerText'']) \<and>
   ''tag'' \<notin> strip_ws ` set (take (length [Num (Fin 7)])
                      [''w i d t h'', ''tag'', ''pos'', ''innerText'']) \<and>
   createElement (\<lambda>h e. ''{}'') [''w i d t h'', ''tag'', ''pos'', ''innerText''] [Num (Fin 7)]
       (DOM_new, \<lparr>elems = [], vecs = []\<rparr>)
     = (Inr 0,
        \<lparr>uid = 1, instructions = [''createElement({});''], elements = [(0, 0)]\<rparr>,
        \<lparr>elems = [\<lparr>id_e = 0, pos = Vec 0, tag = Str '''', events = [], innerText = Str ''''\<rparr>],
          vecs = [\<lparr>x = Fin 0, y = Fin 0\<rparr>]\<rparr>)"
proof -
  have lt: "length [Num (Fin 7)] < length [''w i d t h'', ''tag'', ''pos'', ''innerText'']"
    by simp
  have k: "strip_ws ` set (take (length [Num (Fin 7)])
             [''w i d t h'', ''tag'', ''pos'', ''innerText'']) = {''width''}"
    by (simp add: strip_ws_def is_space_def)
  have np: "''__proto__'' \<notin> strip_ws ` set (take (length [Num (Fin 7)])
             [''w i d t h'', ''tag'', ''pos'', ''innerText''])"
    unfolding k by simp
  have c: "createElement (\<lambda>h e. ''{}'') [''w i d t h'', ''tag'', ''pos'', ''innerText''] [Num (Fin 7)]
       (DOM_new, \<lparr>elems = [], vecs = []\<rparr>)
     = (Inr 0,
        \<lparr>uid = 1, instructions = [''createElement({});''], elements = [(0, 0)]\<rparr>,
        \<lparr>elems = [\<lparr>id_e = 0, pos = Vec 0, tag = Str '''', events = [], innerText = Str ''''\<rparr>],
          vecs = [\<lparr>x = Fin 0, y = Fin 0\<rparr>]\<rparr>)"
    by (simp add: createElement_def empty_options_def assign_option_def assign_throws_def
      strip_ws_def is_space_def property_def inherited_def Element_new_eq nullish_def
      coalesce_def modify_element_def JSON_stringify_def element_throws_def DOM_new_def
      instruct_def Let_def)
  from createElement_missing_values_default
         [OF lt np, of "\<lambda>h e. ''{}''" DOM_new "\<lparr>elems = [], vecs = []\<rparr>"] lt c
  show ?thesis
    unfolding k by simp
qed

subsection \<open>The registry between operations\<close>

lemma update_loop_eq:
  "update_loop stringify hp kes d =
     (if serializable_prefix hp kes = kes then None else Some TypeError,
      d\<lparr>instructions := instructions d @
           map (\<lambda>ke. update_entry stringify hp (snd ke)) (serializable_prefix hp kes)\<rparr>)"
proof (induction kes arbitrary: d)
  case Nil
  show ?case by (simp add: serializable_prefix_def)
next
  case (Cons ke kes)
  show ?case
  proof (cases "element_throws (elems hp ! snd ke)")
    case True
    then show ?thesis
      by (simp add: serializable_prefix_def JSON_stringify_def)
  next
    case False
    then show ?thesis
      using Cons.IH [of "instruct (update_entry stringify hp (snd ke)) d"]
      by (simp add: serializable_prefix_def JSON_stringify_def update_entry_def instruct_def)
  qed
qed

lemma update_eq:
  "update stringify (d, hp) =
     (if serializable_prefix hp (elements d) = elements d then None else Some TypeError,
      d\<lparr>instructions := instructions d @
           map (\<lambda>ke. update_entry stringify hp (snd ke)) (serializable_prefix hp (elements d))\<rparr>)"
  by (simp add: update_def update_loop_eq)

lemma keys_ok_new: "keys_ok DOM_new"
  by (simp add: keys_ok_def DOM_new_def)

lemma keys_ok_put:
  assumes "keys_ok d" and "uid d' = Suc (uid d)" and "elements d' = obj_put (uid d) e (elements d)"
  shows "keys_ok d'" and "elements d' = elements d @ [(uid d, e)]"
proof -
  have b: "\<forall>k'\<in>fst ` set (elements d). k' < uid d"
    using assms(1) by (simp add: keys_ok_def)
  then show el: "elements d' = elements d @ [(uid d, e)]"
    using assms(3) by (simp add: obj_put_last)
  show "keys_ok d'"
    using assms(1) b unfolding keys_ok_def el assms(2)
    by (auto simp: sorted_wrt_append less_Suc_eq)
qed

lemma keys_ok_createElement:
  assumes "keys_ok d" and "createElement stringify keys vals (d, hp) = (r, d', hp')"
  shows "keys_ok d'"
proof (cases r)
  case (Inl err)
  with assms(2) createElement_Inl [of stringify keys vals d hp err d' hp']
  consider "d' = d" | "uid d' = Suc (uid d)"
      "elements d' = obj_put (uid d) (length (elems hp)) (elements d)"
    by blast
  then show ?thesis
  proof cases
    case 1
    with assms(1) show ?thesis by simp
  next
    case 2
    then show ?thesis by (rule keys_ok_put(1) [OF assms(1)])
  qed
next
  case (Inr e)
  with assms(2) have c: "createElement stringify keys vals (d, hp) = (Inr e, d', hp')"
    by simp
  show ?thesis
    by (rule keys_ok_put(1) [OF assms(1) createElement_Inr(1,2) [OF c]])
qed

lemma keys_ok_run:
  assumes "keys_ok d" and "run stringify op (d, hp) = (d', hp')"
  shows "keys_ok d'"
proof (cases op)
  case (Instruct i)
  with assms show ?thesis
    by (fastforce simp: keys_ok_def instruct_def)
next
  case (CreateElement keys vals)
  with assms(2) have "createElement stringify keys vals (d, hp)
      = (fst (createElement stringify keys vals (d, hp)), d', hp')"
    by (cases "createElement stringify keys vals (d, hp)") simp
  then show ?thesis
    by (rule keys_ok_createElement [OF assms(1)])
next
  case Update
  with assms show ?thesis
    by (fastforce simp: keys_ok_def update_eq)
qed

lemma reachable_keys_ok: "reachable stringify d \<Longrightarrow> keys_ok d"
  by (induction rule: reachable.induct) (auto intro: keys_ok_new keys_ok_run)

lemma run_grows:
  "uid d \<le> uid (fst (run stringify op (d, hp))) \<and>
   prefix (instructions d) (instructions (fst (run stringify op (d, hp))))"
proof (cases op)
  case (Instruct i)
  then show ?thesis by (simp add: instruct_def)
next
  case (CreateElement keys vals)
  obtain r d' hp' where c: "createElement stringify keys vals (d, hp) = (r, d', hp')"
    by (cases "createElement stringify keys vals (d, hp)") auto
  show ?thesis
  proof (cases r)
    case (Inl err)
    with c CreateElement show ?thesis
      using createElement_Inl [of stringify keys vals d hp err d' hp'] by auto
  next
    case (Inr e)
    with c CreateElement show ?thesis
      using createElement_Inr [of stringify keys vals d hp e d' hp'] by auto
  qed
next
  case Update
  then show ?thesis by (simp add: update_eq)
qed

subsection \<open>Invariants of the registry\<close>

lemma create_first:
  "createElement (\<lambda>h e. ''{}'') [] [] (DOM_new, \<lparr>elems = [], vecs = []\<rparr>) =
     (Inr 0,
      \<lparr>uid = 1, instructions = [''createElement({});''], elements = [(0, 0)]\<rparr>,
      \<lparr>elems = [\<lparr>id_e = 0, pos = Vec 0, tag = Str '''', events = [], innerText = Str ''''\<rparr>],
        vecs = [\<lparr>x = Fin 0, y = Fin 0\<rparr>]\<rparr>)"
  by (simp add: createElement_def empty_options_def property_def inherited_def Element_new_eq
      nullish_def coalesce_def modify_element_def JSON_stringify_def element_throws_def
      DOM_new_def instruct_def Let_def)

text \<open>
  C3: in every registry reachable from a new one by \<^verbatim>\<open>instruct\<close>, \<^verbatim>\<open>createElement\<close> and
  \<^verbatim>\<open>update\<close>, every key of \<open>elements\<close> is below \<open>uid\<close>. Every operation leaves \<open>uid\<close> at
  least what it was and leaves a log of which the previous log is a prefix. A successful
  \<^verbatim>\<open>createElement\<close> gives the element the id \<open>uid\<close>, which is the key of no stored
  element, and increments \<open>uid\<close>, so no later call gives that id again.
\<close>

theorem registry_invariants:
  assumes "reachable stringify d"
  shows "(\<forall>k \<in> fst ` set (elements d). k < uid d) \<and>
         (\<forall>op hp. uid d \<le> uid (fst (run stringify op (d, hp))) \<and>
                 prefix (instructions d) (instructions (fst (run stringify op (d, hp)))) \<and>
                 (\<forall>k \<in> fst ` set (elements (fst (run stringify op (d, hp)))).
                     k < uid (fst (run stringify op (d, hp))))) \<and>
         (\<forall>keys values hp e d' hp'.
            createElement stringify keys values (d, hp) = (Inr e, d', hp') \<longrightarrow>
              id_e (elems hp' ! e) = int (uid d) \<and> uid d \<notin> fst ` set (elements d) \<and>
              uid d' = Suc (uid d))"
proof -
  have ok: "keys_ok d"
    by (rule reachable_keys_ok [OF assms])
  have below: "\<forall>k \<in> fst ` set (elements d). k < uid d"
    using ok by (simp add: keys_ok_def)
  have after: "\<forall>k \<in> fst ` set (elements (fst (run stringify op (d, hp)))).
                  k < uid (fst (run stringify op (d, hp)))" for op hp
  proof -
    have "keys_ok (fst (run stringify op (d, hp)))"
      by (rule keys_ok_run [OF ok, of stringify op hp _ "snd (run stringify op (d, hp))"]) simp
    then show ?thesis
      by (simp add: keys_ok_def)
  qed
  have fresh: "id_e (elems hp' ! e) = int (uid d) \<and> uid d \<notin> fst ` set (elements d) \<and>
      uid d' = Suc (uid d)"
    if c: "createElement stringify keys vals (d, hp) = (Inr e, d', hp')" for keys vals hp e d' hp'
  proof -
    from createElement_Inr(4) [OF c] obtain el where "elems hp' = elems hp @ [el]"
      and "id_e el = int (uid d)"
      by blast
    then have "id_e (elems hp' ! e) = int (uid d)"
      using createElement_Inr(3) [OF c] by simp
    with createElement_Inr(1) [OF c] below show ?thesis
      by auto
  qed
  show ?thesis
    using below run_grows [of d stringify] after fresh by blast
qed

theorem registry_invariants_witness:
  "reachable (\<lambda>h e. ''{}'')
     \<lparr>uid = 1, instructions = [''createElement({});''], elements = [(0, 0)]\<rparr> \<and>
   (0::nat) < 1 \<and>
   prefix [''createElement({});'']
     (instructions (fst (run (\<lambda>h e. ''{}'') Update
        (\<lparr>uid = 1, instructions = [''createElement({});''], elements = [(0, 0)]\<rparr>,
         \<lparr>elems = [], vecs = []\<rparr>))))"
proof -
  let ?d = "\<lparr>uid = 1, instructions = [''createElement({});''], elements = [(0, 0)]\<rparr>"
  have "run (\<lambda>h e. ''{}'') (CreateElement [] []) (DOM_new, \<lparr>elems = [], vecs = []\<rparr>)
      = (?d, \<lparr>elems = [\<lparr>id_e = 0, pos = Vec 0, tag = Str '''', events = [], innerText = Str ''''\<rparr>],
        vecs = [\<lparr>x = Fin 0, y = Fin 0\<rparr>]\<rparr>)"
    by (simp add: create_first)
  then have r: "reachable (\<lambda>h e. ''{}'') ?d"
    by (rule reachable_run [OF reachable_new])
  from registry_invariants [OF r]
  have "prefix (instructions ?d)
      (instructions (fst (run (\<lambda>h e. ''{}'') Update (?d, \<lparr>elems = [], vecs = []\<rparr>))))"
    by blast
  with r show ?thesis
    by simp
qed

subsection \<open>Elements the caller has not written to\<close>

lemma dom_ok_vecs [simp]: "dom_ok d (hp\<lparr>vecs := h\<rparr>) = dom_ok d hp"
  by (simp add: dom_ok_def)

lemma dom_ok_keys_ok: "dom_ok d hp \<Longrightarrow> keys_ok d"
  by (fastforce simp: dom_ok_def keys_ok_def)

lemma dom_ok_store:
  assumes "dom_ok d hp" and "uid d' = Suc (uid d)"
    and "elements d' = obj_put (uid d) (length (elems hp)) (elements d)"
    and "elems hp' = elems hp @ [el]" and "id_e el = int (uid d)"
  shows "dom_ok d' hp'"
proof -
  have el: "elements d' = elements d @ [(uid d, length (elems hp))]"
    by (rule keys_ok_put(2) [OF dom_ok_keys_ok [OF assms(1)] assms(2,3)])
  have old: "k < uid d \<and> e < length (elems hp) \<and> id_e (elems hp ! e) = int k"
    if "(k, e) \<in> set (elements d)" for k e
    using assms(1) that by (auto simp: dom_ok_def)
  have "sorted_wrt (<) (map fst (elements d'))"
    using assms(1) old unfolding el by (fastforce simp: dom_ok_def sorted_wrt_append)
  moreover have "distinct (map snd (elements d'))"
    using assms(1) old unfolding el by (fastforce simp: dom_ok_def)
  moreover have "k < uid d' \<and> e < length (elems hp') \<and> id_e (elems hp' ! e) = int k"
    if "(k, e) \<in> set (elements d')" for k e
    using that old [of k e] unfolding el assms(2,4)
    by (auto simp: nth_append assms(5))
  ultimately show ?thesis
    unfolding dom_ok_def by blast
qed

lemma dom_ok_createElement:
  assumes "dom_ok d hp" and "createElement stringify keys vals (d, hp) = (r, d', hp')"
  shows "dom_ok d' hp'"
proof (cases r)
  case (Inl err)
  with assms(2) createElement_Inl [of stringify keys vals d hp err d' hp']
  consider "d' = d" "hp' = hp" | el where "uid d' = Suc (uid d)"
      "elements d' = obj_put (uid d) (length (elems hp)) (elements d)"
      "elems hp' = elems hp @ [el]" "id_e el = int (uid d)"
    by blast
  then show ?thesis
  proof cases
    case 1
    with assms(1) show ?thesis by simp
  next
    case 2
    then show ?thesis by (rule dom_ok_store [OF assms(1)])
  qed
next
  case (Inr e)
  with assms(2) have c: "createElement stringify keys vals (d, hp) = (Inr e, d', hp')"
    by simp
  from createElement_Inr(4) [OF c] obtain el where "elems hp' = elems hp @ [el]"
    and "id_e el = int (uid d)"
    by blast
  with createElement_Inr(1,2,3) [OF c] show ?thesis
    by (intro dom_ok_store [OF assms(1)]) simp_all
qed

lemma dom_ok_run:
  assumes "dom_ok d hp" and "run stringify op (d, hp) = (d', hp')"
  shows "dom_ok d' hp'"
proof (cases op)
  case (Instruct i)
  with assms show ?thesis
    by (fastforce simp: dom_ok_def instruct_def)
next
  case (CreateElement keys vals)
  with assms(2) have "createElement stringify keys vals (d, hp)
      = (fst (createElement stringify keys vals (d, hp)), d', hp')"
    by (cases "createElement stringify keys vals (d, hp)") simp
  then show ?thesis
    by (rule dom_ok_createElement [OF assms(1)])
next
  case Update
  with assms show ?thesis
    by (fastforce simp: dom_ok_def update_eq)
qed

lemma undisturbed_dom_ok: "undisturbed stringify s \<Longrightarrow> dom_ok (fst s) (snd s)"
proof (induction rule: undisturbed.induct)
  case (undisturbed_new hp)
  show ?case by (simp add: dom_ok_def DOM_new_def)
next
  case (undisturbed_run d hp op h d' hp')
  then have "dom_ok d (hp\<lparr>vecs := h\<rparr>)"
    by simp
  from dom_ok_run [OF this undisturbed_run.hyps(2)] show ?case
    by simp
qed

lemma created_undisturbed: "created stringify n s \<Longrightarrow> undisturbed stringify s"
proof (induction rule: created.induct)
  case (created_0 hp)
  show ?case by (rule undisturbed_new)
next
  case (created_Suc n d hp keys vals h e d' hp')
  from created_Suc.hyps(2)
  have "run stringify (CreateElement keys vals) (d, hp\<lparr>vecs := h\<rparr>) = (d', hp')"
    by simp
  with created_Suc.IH show ?case
    by (rule undisturbed_run)
qed

subsection \<open>Successive creations\<close>

lemma createElement_no_arguments:
  "\<exists>e d' hp'. createElement stringify [] [] (d, hp) = (Inr e, d', hp')"
proof -
  have z: "zip_options [] [] 0 empty_options = Inr empty_options"
    by simp
  have c: "(if property empty_options ''tag'' = Str ''button'' then Button_new empty_options hp
      else Element_new empty_options hp)
        = (length (elems hp),
           \<lparr>elems = elems hp @ [\<lparr>id_e = - 1, pos = Vec (length (vecs hp)), tag = Str '''',
                                   events = [], innerText = Str ''''\<rparr>],
             vecs = vecs hp @ [\<lparr>x = Fin 0, y = Fin 0\<rparr>]\<rparr>)"
    by (simp add: Element_new_eq property_def inherited_def empty_options_def nullish_def
        coalesce_def)
  show ?thesis
    unfolding createElement_zip [OF z c] by (simp add: element_throws_def)
qed

lemma created_exists: "\<exists>d hp. created stringify n (d, hp)"
proof (induction n)
  case 0
  show ?case using created_0 by blast
next
  case (Suc n)
  then obtain d hp where d: "created stringify n (d, hp)" by blast
  obtain e d' hp' where "createElement stringify [] [] (d, hp\<lparr>vecs := vecs hp\<rparr>) = (Inr e, d', hp')"
    using createElement_no_arguments by blast
  with d have "created stringify (Suc n) (d', hp')"
    by (rule created_Suc)
  then show ?case by blast
qed

text \<open>
  C1: after \<open>n\<close> successive successful \<^verbatim>\<open>createElement\<close> calls on a new registry, \<open>uid\<close>
  is \<open>n\<close>, there are \<open>n\<close> stored elements, under the keys \<open>0, \<dots>, n - 1\<close> and with
  exactly these ids (so the ids are distinct), and the log has exactly \<open>n\<close> entries,
  each starting with \<^verbatim>\<open>createElement(\<close>.
\<close>

theorem created_registry:
  assumes "created stringify n (d, hp)"
  shows "uid d = n \<and>
         map fst (elements d) = [0..<n] \<and>
         map (\<lambda>(k, e). id_e (elems hp ! e)) (elements d) = map int [0..<n] \<and>
         length (instructions d) = n \<and>
         (\<forall>i \<in> set (instructions d). prefix ''createElement('' i)"
  using assms
proof (induction n "(d, hp)" arbitrary: d hp rule: created.induct)
  case (created_0 hp)
  show ?case by (simp add: DOM_new_def)
next
  case (created_Suc n d hp keys vals h e d' hp')
  have ok: "dom_ok d (hp\<lparr>vecs := h\<rparr>)"
    using undisturbed_dom_ok [OF created_undisturbed [OF created_Suc.hyps(1)]] by simp
  note c = created_Suc.hyps(3)
  from createElement_Inr(4) [OF c] obtain el where hp': "elems hp' = elems hp @ [el]"
    and i: "id_e el = int (uid d)"
    and l: "instructions d' = instructions d @ [''createElement('' @ stringify (vecs hp') el @ '');'']"
    by auto
  have u: "uid d' = Suc (uid d)" and e: "e = length (elems hp)"
    using createElement_Inr(1,3) [OF c] by simp_all
  have el: "elements d' = elements d @ [(uid d, e)]"
    by (rule keys_ok_put(2) [OF dom_ok_keys_ok [OF ok] createElement_Inr(1,2) [OF c]])
  have old: "map (\<lambda>(k, e). id_e (elems hp' ! e)) (elements d)
               = map (\<lambda>(k, e). id_e (elems hp ! e)) (elements d)"
    using ok unfolding hp' by (auto simp: dom_ok_def nth_append)
  from created_Suc.hyps(2) show ?case
    unfolding el u l by (auto simp: old) (simp add: hp' e i)
qed

lemma create_second:
  "createElement (\<lambda>h e. ''{}'') [''t a g''] [Str ''button'']
     (\<lparr>uid = 1, instructions = [''createElement({});''], elements = [(0, 0)]\<rparr>,
      \<lparr>elems = [\<lparr>id_e = 0, pos = Vec 0, tag = Str '''', events = [], innerText = Str ''''\<rparr>],
        vecs = [\<lparr>x = Fin 0, y = Fin 0\<rparr>]\<rparr>\<lparr>vecs := [\<lparr>x = Fin 0, y = Fin 0\<rparr>]\<rparr>) =
     (Inr 1,
      \<lparr>uid = 2, instructions = [''createElement({});'', ''createElement({});''],
        elements = [(0, 0), (1, 1)]\<rparr>,
      \<lparr>elems = [\<lparr>id_e = 0, pos = Vec 0, tag = Str '''', events = [], innerText = Str ''''\<rparr>,
                \<lparr>id_e = 1, pos = Vec 1, tag = Str ''button'', events = [(''click'', Noop)],
                  innerText = Str ''''\<rparr>],
        vecs = [\<lparr>x = Fin 0, y = Fin 0\<rparr>, \<lparr>x = Fin 0, y = Fin 0\<rparr>]\<rparr>)"
  by (simp add: createElement_def empty_options_def assign_option_def assign_throws_def strip_ws_def is_space_def
      property_def inherited_def Button_new_eq spread_button_def nullish_def coalesce_def
      modify_element_def JSON_stringify_def element_throws_def instruct_def Let_def)

theorem created_registry_witness:
  "created (\<lambda>h e. ''{}'') (Suc (Suc 0))
     (\<lparr>uid = 2, instructions = [''createElement({});'', ''createElement({});''],
        elements = [(0, 0), (1, 1)]\<rparr>,
      \<lparr>elems = [\<lparr>id_e = 0, pos = Vec 0, tag = Str '''', events = [], innerText = Str ''''\<rparr>,
                \<lparr>id_e = 1, pos = Vec 1, tag = Str ''button'', events = [(''click'', Noop)],
                  innerText = Str ''''\<rparr>],
        vecs = [\<lparr>x = Fin 0, y = Fin 0\<rparr>, \<lparr>x = Fin 0, y = Fin 0\<rparr>]\<rparr>) \<and>
   map (\<lambda>(k, e). id_e ([\<lparr>id_e = 0, pos = Vec 0, tag = Str '''', events = [], innerText = Str ''''\<rparr>,
                \<lparr>id_e = 1, pos = Vec 1, tag = Str ''button'', events = [(''click'', Noop)],
                  innerText = Str ''''\<rparr>] ! e)) [(0, 0), (1, 1 :: nat)] = [0, 1]"
proof -
  let ?hp0 = "\<lparr>elems = [], vecs = []\<rparr>"
  have c1: "createElement (\<lambda>h e. ''{}'') [] [] (DOM_new, ?hp0\<lparr>vecs := []\<rparr>) =
     (Inr 0,
      \<lparr>uid = 1, instructions = [''createElement({});''], elements = [(0, 0)]\<rparr>,
      \<lparr>elems = [\<lparr>id_e = 0, pos = Vec 0, tag = Str '''', events = [], innerText = Str ''''\<rparr>],
        vecs = [\<lparr>x = Fin 0, y = Fin 0\<rparr>]\<rparr>)"
    using create_first by simp
  note cr = created_Suc [OF created_Suc [OF created_0 c1] create_second]
  from created_registry [OF cr] cr show ?thesis
    by simp
qed

subsection \<open>Update\<close>

lemma number_text_no_comma: "CHR 0x2C \<notin> set (number_text i)"
  using decimal_no_comma by (simp add: number_text_def)

lemma id_text_update_entry_any:
  "id_text (update_entry stringify hp e) = number_text (id_e (elems hp ! e))"
proof -
  have "takeWhile (\<lambda>c. c \<noteq> CHR 0x2C)
          (number_text (id_e (elems hp ! e)) @ CHR 0x2C # stringify (vecs hp) (elems hp ! e) @ '');'')
        = number_text (id_e (elems hp ! e))"
    using number_text_no_comma by (rule takeWhile_up_to)
  then show ?thesis
    by (simp add: id_text_def update_entry_def)
qed

lemma prefix_update_entry: "prefix ''updateElement('' (update_entry stringify hp e)"
  by (simp add: update_entry_def)

lemma number_text_0: "number_text 0 = ''0''"
  by code_simp

lemma number_text_1: "number_text 1 = ''1''"
  by code_simp

text \<open>
  The claim C2 as stated fails in two ways. After \<^verbatim>\<open>createElement(['innerText'], 10n)\<close>
  on a new registry (which throws, but stores the element first) the registry stores one
  element, and \<^verbatim>\<open>update()\<close> throws and appends no entry. After two calls of
  \<^verbatim>\<open>createElement\<close> and the caller's write \<^verbatim>\<open>a.id = 1\<close> to the first element returned,
  \<^verbatim>\<open>update()\<close> appends two entries that both refer to the id \<open>1\<close>.
\<close>

theorem update_entry_per_element_counterexample:
  "snd (createElement (\<lambda>h e. ''{}'') [''innerText''] [BigInt 10] (DOM_new, \<lparr>elems = [], vecs = []\<rparr>))
     = (\<lparr>uid = 1, instructions = [], elements = [(0, 0)]\<rparr>,
        \<lparr>elems = [\<lparr>id_e = 0, pos = Vec 0, tag = Str '''', events = [], innerText = BigInt 10\<rparr>],
          vecs = [\<lparr>x = Fin 0, y = Fin 0\<rparr>]\<rparr>) \<and>
   update (\<lambda>h e. ''{}'')
     (snd (createElement (\<lambda>h e. ''{}'') [''innerText''] [BigInt 10]
             (DOM_new, \<lparr>elems = [], vecs = []\<rparr>)))
     = (Some TypeError, \<lparr>uid = 1, instructions = [], elements = [(0, 0)]\<rparr>) \<and>
   snd (createElement (\<lambda>h e. ''{}'') [] []
          (snd (createElement (\<lambda>h e. ''{}'') [] [] (DOM_new, \<lparr>elems = [], vecs = []\<rparr>))))
     = (\<lparr>uid = 2, instructions = [''createElement({});'', ''createElement({});''],
          elements = [(0, 0), (1, 1)]\<rparr>,
        \<lparr>elems = [\<lparr>id_e = 0, pos = Vec 0, tag = Str '''', events = [], innerText = Str ''''\<rparr>,
                  \<lparr>id_e = 1, pos = Vec 1, tag = Str '''', events = [], innerText = Str ''''\<rparr>],
          vecs = [\<lparr>x = Fin 0, y = Fin 0\<rparr>, \<lparr>x = Fin 0, y = Fin 0\<rparr>]\<rparr>) \<and>
   update (\<lambda>h e. ''{}'')
     (\<lparr>uid = 2, instructions = [''createElement({});'', ''createElement({});''],
        elements = [(0, 0), (1, 1)]\<rparr>,
      modify_element 0 (\<lambda>el. el\<lparr>id_e := 1\<rparr>)
        \<lparr>elems = [\<lparr>id_e = 0, pos = Vec 0, tag = Str '''', events = [], innerText = Str ''''\<rparr>,
                  \<lparr>id_e = 1, pos = Vec 1, tag = Str '''', events = [], innerText = Str ''''\<rparr>],
          vecs = [\<lparr>x = Fin 0, y = Fin 0\<rparr>, \<lparr>x = Fin 0, y = Fin 0\<rparr>]\<rparr>)
     = (None,
        \<lparr>uid = 2,
          instructions = [''createElement({});'', ''createElement({});'',
                          ''updateElement(1,{});'', ''updateElement(1,{});''],
          elements = [(0, 0), (1, 1)]\<rparr>)"
  by (simp add: createElement_def empty_options_def assign_option_def assign_throws_def strip_ws_def is_space_def
      property_def inherited_def Element_new_eq nullish_def coalesce_def modify_element_def
      JSON_stringify_def element_throws_def DOM_new_def instruct_def Let_def update_def
      number_text_1)

text \<open>
  C2, amended: for every registry, a call of \<^verbatim>\<open>update()\<close> changes nothing but the log, to
  which it appends one entry for each stored element, in key order, up to the first
  element on which \<^verbatim>\<open>JSON.stringify\<close> throws; there it throws. So it returns exactly when
  \<^verbatim>\<open>JSON.stringify\<close> throws on no stored element, and has then appended exactly as many
  entries as there are stored elements. Each entry is \<^verbatim>\<open>updateElement(<id>,<json>);\<close> with the
  id the element has at the time of the call. This happens whatever the
  state of the elements: a second \<^verbatim>\<open>update()\<close> right after one that returned appends the
  same entries again. When the caller has written to no element since its creation, the
  ids referred to are the keys of the stored elements and pairwise distinct.
\<close>

theorem update_entry_per_element:
  "\<exists>new.
     snd (update stringify (d, hp)) = d\<lparr>instructions := instructions d @ new\<rparr> \<and>
     length new \<le> length (elements d) \<and>
     new = map (\<lambda>ke. update_entry stringify hp (snd ke)) (take (length new) (elements d)) \<and>
     (\<forall>i \<in> set new. prefix ''updateElement('' i) \<and>
     map id_text new
       = map (\<lambda>ke. number_text (id_e (elems hp ! snd ke))) (take (length new) (elements d)) \<and>
     (fst (update stringify (d, hp)) = None \<longleftrightarrow> length new = length (elements d)) \<and>
     (fst (update stringify (d, hp)) = None \<longleftrightarrow>
        (\<forall>ke \<in> set (elements d). \<not> element_throws (elems hp ! snd ke))) \<and>
     (length new < length (elements d) \<longrightarrow>
        fst (update stringify (d, hp)) = Some TypeError \<and>
        element_throws (elems hp ! snd (elements d ! length new))) \<and>
     (fst (update stringify (d, hp)) = None \<longrightarrow>
        update stringify (snd (update stringify (d, hp)), hp)
          = (None, d\<lparr>instructions := instructions d @ new @ new\<rparr>)) \<and>
     (undisturbed stringify (d, hp) \<longrightarrow>
        map id_text new = map (\<lambda>ke. number_text (int (fst ke))) (take (length new) (elements d)) \<and>
        distinct (map id_text new))"
proof -
  let ?P = "\<lambda>ke. \<not> element_throws (elems hp ! snd ke)"
  let ?ok = "serializable_prefix hp (elements d)"
  let ?new = "map (\<lambda>ke. update_entry stringify hp (snd ke)) ?ok"
  have ok_take: "?ok = take (length ?new) (elements d)"
    using takeWhile_eq_take [of ?P "elements d"] by (simp add: serializable_prefix_def)
  have len: "length ?new \<le> length (elements d)"
    by (simp add: serializable_prefix_def length_takeWhile_le)
  have all: "?ok = elements d \<longleftrightarrow> (\<forall>ke \<in> set (elements d). ?P ke)"
    by (simp add: serializable_prefix_def takeWhile_eq_all_conv)
  have full: "?ok = elements d \<longleftrightarrow> length ?new = length (elements d)"
    using ok_take by (metis length_map take_all order_refl)
  have res: "update stringify (d, hp) = (if ?ok = elements d then None else Some TypeError,
      d\<lparr>instructions := instructions d @ ?new\<rparr>)"
    by (rule update_eq)
  have c1: "snd (update stringify (d, hp)) = d\<lparr>instructions := instructions d @ ?new\<rparr>"
    by (simp add: res)
  have c2: "?new = map (\<lambda>ke. update_entry stringify hp (snd ke)) (take (length ?new) (elements d))"
    by (rule arg_cong [OF ok_take])
  have c3: "\<forall>i \<in> set ?new. prefix ''updateElement('' i"
    by (auto simp: prefix_update_entry)
  have c4: "map id_text ?new
      = map (\<lambda>ke. number_text (id_e (elems hp ! snd ke))) (take (length ?new) (elements d))"
    unfolding ok_take [symmetric] by (simp add: id_text_update_entry_any)
  have c5: "fst (update stringify (d, hp)) = None \<longleftrightarrow> length ?new = length (elements d)"
    using full by (simp add: res)
  have c6: "fst (update stringify (d, hp)) = None \<longleftrightarrow> (\<forall>ke \<in> set (elements d). ?P ke)"
    using all by (simp add: res)
  have c7: "fst (update stringify (d, hp)) = Some TypeError \<and>
        element_throws (elems hp ! snd (elements d ! length ?new))"
    if "length ?new < length (elements d)"
  proof -
    from that have "?ok \<noteq> elements d"
      using full by simp
    moreover have "\<not> ?P (elements d ! length (takeWhile ?P (elements d)))"
      using that by (intro nth_length_takeWhile) (simp add: serializable_prefix_def)
    ultimately show ?thesis
      by (simp add: res serializable_prefix_def)
  qed
  have c8: "update stringify (snd (update stringify (d, hp)), hp)
          = (None, d\<lparr>instructions := instructions d @ ?new @ ?new\<rparr>)"
    if "fst (update stringify (d, hp)) = None"
  proof -
    from that have "?ok = elements d"
      by (simp add: res split: if_splits)
    then show ?thesis
      unfolding c1 by (simp add: update_eq)
  qed
  have c9: "map id_text ?new = map (\<lambda>ke. number_text (int (fst ke))) (take (length ?new) (elements d))
      \<and> distinct (map id_text ?new)"
    if "undisturbed stringify (d, hp)"
  proof -
    from undisturbed_dom_ok [OF that] have ok: "dom_ok d hp"
      by simp
    have ids: "number_text (id_e (elems hp ! snd ke)) = number_text (int (fst ke))"
      if "ke \<in> set (take (length ?new) (elements d))" for ke
      using ok in_set_takeD [OF that] by (auto simp: dom_ok_def)
    have m: "map id_text ?new
        = map (\<lambda>ke. number_text (int (fst ke))) (take (length ?new) (elements d))"
      unfolding c4 using ids by simp
    have "distinct (map fst (elements d))"
      using ok by (simp add: dom_ok_def strict_sorted_iff)
    then have "distinct (map fst (take (length ?new) (elements d)))"
      by (simp add: take_map [symmetric])
    then have "distinct (map (\<lambda>k. decimal k []) (map fst (take (length ?new) (elements d))))"
      using decimal_inj by (simp only: distinct_map) (auto simp: inj_on_def)
    then have "distinct (map id_text ?new)"
      unfolding m by (simp add: comp_def number_text_nat)
    with m show ?thesis
      by simp
  qed
  show ?thesis
  proof (intro exI [of _ ?new] conjI impI)
    assume "length ?new < length (elements d)"
    note t = c7 [OF this]
    show "fst (update stringify (d, hp)) = Some TypeError"
      by (rule conjunct1 [OF t])
    show "element_throws (elems hp ! snd (elements d ! length ?new))"
      by (rule conjunct2 [OF t])
  next
    assume "fst (update stringify (d, hp)) = None"
    then show "update stringify (snd (update stringify (d, hp)), hp)
          = (None, d\<lparr>instructions := instructions d @ ?new @ ?new\<rparr>)"
      by (rule c8)
  next
    assume u: "undisturbed stringify (d, hp)"
    show "map id_text ?new
        = map (\<lambda>ke. number_text (int (fst ke))) (take (length ?new) (elements d))"
      by (rule conjunct1 [OF c9 [OF u]])
    show "distinct (map id_text ?new)"
      by (rule conjunct2 [OF c9 [OF u]])
  qed (fact c1 len c2 c3 c4 c5 c6)+
qed

theorem update_entry_per_element_witness:
  "undisturbed (\<lambda>h e. ''{}'')
     (\<lparr>uid = 1, instructions = [''createElement({});''], elements = [(0, 0)]\<rparr>,
      \<lparr>elems = [\<lparr>id_e = 0, pos = Vec 0, tag = Str '''', events = [], innerText = Str ''''\<rparr>],
        vecs = [\<lparr>x = Fin 0, y = Fin 0\<rparr>]\<rparr>) \<and>
   update (\<lambda>h e. ''{}'')
     (\<lparr>uid = 1, instructions = [''createElement({});''], elements = [(0, 0)]\<rparr>,
      \<lparr>elems = [\<lparr>id_e = 0, pos = Vec 0, tag = Str '''', events = [], innerText = Str ''''\<rparr>],
        vecs = [\<lparr>x = Fin 0, y = Fin 0\<rparr>]\<rparr>)
     = (None, \<lparr>uid = 1, instructions = [''createElement({});'', ''updateElement(0,{});''],
               elements = [(0, 0)]\<rparr>)"
proof -
  let ?d = "\<lparr>uid = 1, instructions = [''createElement({});''], elements = [(0, 0)]\<rparr>"
  let ?hp = "\<lparr>elems = [\<lparr>id_e = 0, pos = Vec 0, tag = Str '''', events = [], innerText = Str ''''\<rparr>],
        vecs = [\<lparr>x = Fin 0, y = Fin 0\<rparr>]\<rparr>"
  have "run (\<lambda>h e. ''{}'') (CreateElement [] []) (DOM_new, \<lparr>elems = [], vecs = []\<rparr>\<lparr>vecs := []\<rparr>)
      = (?d, ?hp)"
    by (simp add: create_first)
  then have u: "undisturbed (\<lambda>h e. ''{}'') (?d, ?hp)"
    by (rule undisturbed_run [OF undisturbed_new])
  have e: "update (\<lambda>h e. ''{}'') (?d, ?hp)
     = (None, \<lparr>uid = 1, instructions = [''createElement({});'', ''updateElement(0,{});''],
               elements = [(0, 0)]\<rparr>)"
    by (simp add: update_def JSON_stringify_def element_throws_def instruct_def number_text_0)
  from update_entry_per_element [of "\<lambda>h e. ''{}''" ?d ?hp] u e show ?thesis
    by simp
qed

end
